theory Spec2Isabelle
  imports Complex_Main "HOL-Library.AList"
begin

section \<open>Python helpers\<close>

text \<open>
  Python dictionaries that the code iterates over, counts or builds in order are association
  lists (insertion order, keys distinct); \<open>d[k] = v\<close> is \<open>AList.update\<close>, \<open>del d[k]\<close> is
  \<open>AList.delete\<close>, \<open>k in d\<close> is membership in \<open>keys\<close>, \<open>d[k]\<close> is \<open>map_of\<close>.
\<close>

definition keys :: "('k \<times> 'v) list \<Rightarrow> 'k list" where
  "keys d = map fst d"

text \<open>\<open>s.startswith(p)\<close>\<close>

definition startswith :: "string \<Rightarrow> string \<Rightarrow> bool" where
  "startswith s p = (take (length p) s = p)"

text \<open>\<open>s.split(sep)\<close> for a one-character separator, and \<open>s.split(sep)[0]\<close>.\<close>

fun split_on :: "char \<Rightarrow> string \<Rightarrow> string list" where
  "split_on c [] = [[]]"
| "split_on c (x # xs) =
     (if x = c then [] # split_on c xs
      else (case split_on c xs of [] \<Rightarrow> [[x]] | w # ws \<Rightarrow> (x # w) # ws))"

definition split_first :: "char \<Rightarrow> string \<Rightarrow> string" where
  "split_first c s = (case split_on c s of [] \<Rightarrow> [] | w # ws \<Rightarrow> w)"

text \<open>\<open>str(n)\<close> for a non-negative integer, as an f-string renders a count.\<close>

definition digit_char :: "nat \<Rightarrow> char" where
  "digit_char d = char_of (48 + d)"

function str_nat :: "nat \<Rightarrow> string" where
  "str_nat n = (if n < 10 then [digit_char n] else str_nat (n div 10) @ [digit_char (n mod 10)])"
  by pat_completeness auto
termination
  by (relation "measure (\<lambda>n. n)") auto

section \<open>Environment manager: plugin directories and the metadata cache\<close>

text \<open>
  \<open>st_mtime\<close> is a finite float; only its order is used, so a modification time is a
  rational number. References to descriptor dictionaries are addresses.
\<close>

type_synonym mtime = rat
type_synonym addr = nat

text \<open>
  What the manager observes of one entry of the plugin root: its name, whether it is a
  directory, and the modification times of \<open>tool.py\<close> and \<open>requirements.txt\<close> when they
  exist.
\<close>

record fs_entry =
  entry_name :: string
  is_dir :: bool
  tool_py :: "mtime option"
  requirements_txt :: "mtime option"

text \<open>
  A cache entry is the dictionary \<open>{"tools", "file_mtimes", "last_loaded"}\<close> written by
  \<open>update_tool_cache\<close>; \<open>is_tool_cache_valid\<close> also handles an entry without
  \<open>"file_mtimes"\<close>, so that key is optional.
\<close>

record cache_entry =
  tools :: "addr list"
  file_mtimes :: "(string \<times> mtime) list option"
  last_loaded :: rat

type_synonym tools_cache = "(string \<times> cache_entry) list"

definition get_tool_directories :: "fs_entry list \<Rightarrow> fs_entry list" where
  "get_tool_directories listing =
     filter (\<lambda>item. is_dir item \<and> \<not> startswith (entry_name item) ''_''
                     \<and> entry_name item \<noteq> ''__pycache__'') listing"

definition get_tool_file_info :: "fs_entry \<Rightarrow> (string \<times> mtime) list" where
  "get_tool_file_info tool_dir =
     (case tool_py tool_dir of None \<Rightarrow> [] | Some t \<Rightarrow> [(''tool.py'', t)]) @
     (case requirements_txt tool_dir of None \<Rightarrow> [] | Some t \<Rightarrow> [(''requirements.txt'', t)])"

text \<open>The first loop of \<open>is_tool_cache_valid\<close>: a new or a newer file ends it with False.\<close>

fun files_unmodified :: "(string \<times> mtime) list \<Rightarrow> (string \<times> mtime) list \<Rightarrow> bool" where
  "files_unmodified [] cached = True"
| "files_unmodified ((file_name, current_mtime) # rest) cached =
     (case map_of cached file_name of
        None \<Rightarrow> False
      | Some cached_mtime \<Rightarrow>
          if current_mtime > cached_mtime then False else files_unmodified rest cached)"

text \<open>The second loop: a recorded file that is gone ends it with False.\<close>

fun files_not_deleted :: "string list \<Rightarrow> (string \<times> mtime) list \<Rightarrow> bool" where
  "files_not_deleted [] current = True"
| "files_not_deleted (file_name # rest) current =
     (if file_name \<notin> set (keys current) then False else files_not_deleted rest current)"

definition is_tool_cache_valid :: "tools_cache \<Rightarrow> fs_entry \<Rightarrow> bool" where
  "is_tool_cache_valid cache tool_dir =
     (case map_of cache (entry_name tool_dir) of
        None \<Rightarrow> False
      | Some cached_info \<Rightarrow>
          (case file_mtimes cached_info of
             None \<Rightarrow> False
           | Some cached_file_info \<Rightarrow>
               let current_file_info = get_tool_file_info tool_dir in
               if \<not> files_unmodified current_file_info cached_file_info then False
               else if \<not> files_not_deleted (keys cached_file_info) current_file_info then False
               else True))"

definition update_tool_cache :: "rat \<Rightarrow> tools_cache \<Rightarrow> fs_entry \<Rightarrow> addr list \<Rightarrow> tools_cache" where
  "update_tool_cache now cache tool_dir tools_data =
     AList.update (entry_name tool_dir)
       \<lparr>tools = tools_data, file_mtimes = Some (get_tool_file_info tool_dir), last_loaded = now\<rparr>
       cache"

record cache_report =
  status :: string
  message :: string

definition clear_cache :: "tools_cache \<Rightarrow> string option \<Rightarrow> tools_cache \<times> cache_report" where
  "clear_cache cache tool_name =
     (let clear_everything =
            ([], \<lparr>status = ''success'',
                   message = ''Cleared cache for '' @ str_nat (length cache) @ '' tools''\<rparr>)
      in case tool_name of
           None \<Rightarrow> clear_everything
         | Some n \<Rightarrow>
             if n = [] then clear_everything
             else if n \<in> set (keys cache)
             then (AList.delete n cache,
                   \<lparr>status = ''success'', message = ''Cache cleared for '' @ n\<rparr>)
             else (cache, \<lparr>status = ''warning'', message = ''No cache found for '' @ n\<rparr>))"

definition invalidate_tool_cache :: "tools_cache \<Rightarrow> string \<Rightarrow> tools_cache \<times> bool" where
  "invalidate_tool_cache cache tool_name =
     (if tool_name \<in> set (keys cache) then (AList.delete tool_name cache, True)
      else (cache, False))"

text \<open>
  Modelled on the specification's words (section 6): the pattern
  \<open>^[A-Za-z][A-Za-z0-9_]*$\<close> that a plugin directory name is said to match.
\<close>

definition is_letter :: "char \<Rightarrow> bool" where
  "is_letter c = (let n = (of_char c :: nat) in (65 \<le> n \<and> n \<le> 90) \<or> (97 \<le> n \<and> n \<le> 122))"

definition is_name_char :: "char \<Rightarrow> bool" where
  "is_name_char c = (let n = (of_char c :: nat) in is_letter c \<or> (48 \<le> n \<and> n \<le> 57) \<or> n = 95)"

definition matches_name_pattern :: "string \<Rightarrow> bool" where
  "matches_name_pattern s = (case s of [] \<Rightarrow> False | c # cs \<Rightarrow> is_letter c \<and> list_all is_name_char cs)"


section \<open>Python values and tool descriptors\<close>

text \<open>
  The values that occur in descriptors and in worker results. A tool proxy is bound to the
  descriptor dictionary it was created from (by reference), the plugin directory, the
  interpreter, the tool name and the function name; \<open>PBoundCall p\<close> is the bound method
  \<open>p.__call__\<close>. Values are compared with HOL equality, dictionaries inside values being
  kept in one key order.
\<close>

datatype pyval =
    PNone
  | PBool bool
  | PInt int
  | PStr string
  | PList "pyval list"
  | PDict "(string \<times> pyval) list"
  | PBoundCall tool_proxy
and tool_proxy =
    ToolProxy (proxy_tool_data: addr) (proxy_tool_dir: string) (proxy_python: string)
              (proxy_tool_name: pyval) (proxy_function_name: pyval)

text \<open>
  A descriptor (\<open>tool_data\<close>, \<open>model_dump()\<close> output) is a dictionary of which only lookups,
  the key set and equality are used: a map. \<open>d.get(k)\<close> is \<open>PNone\<close> for a missing key.
\<close>

type_synonym descriptor = "string \<rightharpoonup> pyval"

definition dict_get :: "descriptor \<Rightarrow> string \<Rightarrow> pyval" where
  "dict_get d k = (case d k of None \<Rightarrow> PNone | Some v \<Rightarrow> v)"

section \<open>Change tracker\<close>

type_synonym snapshot = "(string \<times> descriptor) list"

record change_item =
  item_name :: string
  item_details :: descriptor

record modified_item =
  mod_name :: string
  mod_previous :: descriptor
  mod_current :: descriptor
  mod_differences :: "string \<rightharpoonup> (pyval \<times> pyval)"

record tool_changes =
  added :: "change_item list"
  removed :: "change_item list"
  modified :: "modified_item list"

record change_record =
  timestamp :: string
  changes :: tool_changes

text \<open>The unused field \<open>file_hashes\<close> of the class is left out.\<close>

record tool_change_manager =
  previous_tools :: snapshot
  current_tools :: snapshot
  change_history :: "change_record list"

definition init_change_manager :: tool_change_manager where
  "init_change_manager = \<lparr>previous_tools = [], current_tools = [], change_history = []\<rparr>"

text \<open>
  Python's \<open>==\<close> on values is not the equality of HOL (\<open>True == 1\<close>, and the key order of a
  dictionary does not count): the tracker takes it as the parameter \<open>eq\<close>, and \<open>a != b\<close> is
  \<open>\<not> eq a b\<close>. Two dictionaries are equal when they have the same keys and, key by key,
  equal values: \<open>a == b\<close> compares each value of \<open>a\<close> with the value of \<open>b\<close> at the same key.
  The values of \<open>pyval\<close> are equal to themselves, so that the comparison of a value with
  itself, which the dictionary comparison skips, has the same outcome.
\<close>

type_synonym py_equality = "pyval \<Rightarrow> pyval \<Rightarrow> bool"

definition dict_equal :: "py_equality \<Rightarrow> descriptor \<Rightarrow> descriptor \<Rightarrow> bool" where
  "dict_equal eq a b \<longleftrightarrow> dom a = dom b \<and> (\<forall>k \<in> dom a. eq (dict_get a k) (dict_get b k))"

text \<open>
  \<open>_get_detailed_diff\<close>: for every key of either description whose \<open>.get\<close> values differ,
  the pair \<open>{"old", "new"}\<close>.
\<close>

definition get_detailed_diff ::
  "py_equality \<Rightarrow> descriptor \<Rightarrow> descriptor \<Rightarrow> (string \<rightharpoonup> (pyval \<times> pyval))" where
  "get_detailed_diff eq old_desc new_desc =
     (\<lambda>key. if key \<in> dom old_desc \<union> dom new_desc
              then (let old_value = dict_get old_desc key; new_value = dict_get new_desc key
                    in if \<not> eq old_value new_value then Some (old_value, new_value) else None)
              else None)"

text \<open>The three loops of \<open>detect_changes\<close>, each over the keys of one snapshot.\<close>

fun detect_added :: "string list \<Rightarrow> snapshot \<Rightarrow> snapshot \<Rightarrow> change_item list" where
  "detect_added [] cur prev = []"
| "detect_added (tool_name # rest) cur prev =
     (if tool_name \<notin> set (keys prev)
      then (case map_of cur tool_name of
              None \<Rightarrow> detect_added rest cur prev
            | Some d \<Rightarrow> \<lparr>item_name = tool_name, item_details = d\<rparr> # detect_added rest cur prev)
      else detect_added rest cur prev)"

fun detect_removed :: "string list \<Rightarrow> snapshot \<Rightarrow> snapshot \<Rightarrow> change_item list" where
  "detect_removed [] cur prev = []"
| "detect_removed (tool_name # rest) cur prev =
     (if tool_name \<notin> set (keys cur)
      then (case map_of prev tool_name of
              None \<Rightarrow> detect_removed rest cur prev
            | Some d \<Rightarrow> \<lparr>item_name = tool_name, item_details = d\<rparr> # detect_removed rest cur prev)
      else detect_removed rest cur prev)"

fun detect_modified ::
  "py_equality \<Rightarrow> string list \<Rightarrow> snapshot \<Rightarrow> snapshot \<Rightarrow> modified_item list" where
  "detect_modified eq [] cur prev = []"
| "detect_modified eq (tool_name # rest) cur prev =
     (if tool_name \<in> set (keys prev)
      then (case (map_of cur tool_name, map_of prev tool_name) of
              (Some c, Some p) \<Rightarrow>
                if \<not> dict_equal eq c p
                then \<lparr>mod_name = tool_name, mod_previous = p, mod_current = c,
                      mod_differences = get_detailed_diff eq p c\<rparr> # detect_modified eq rest cur prev
                else detect_modified eq rest cur prev
            | _ \<Rightarrow> detect_modified eq rest cur prev)
      else detect_modified eq rest cur prev)"

definition detect_changes :: "py_equality \<Rightarrow> tool_change_manager \<Rightarrow> tool_changes" where
  "detect_changes eq m =
     \<lparr>added = detect_added (keys (current_tools m)) (current_tools m) (previous_tools m),
      removed = detect_removed (keys (previous_tools m)) (current_tools m) (previous_tools m),
      modified = detect_modified eq (keys (current_tools m)) (current_tools m) (previous_tools m)\<rparr>"

text \<open>
  \<open>update_tools\<close>; \<open>now\<close> is the text of \<open>datetime.now().isoformat()\<close> at the call. The
  dictionary \<open>changes\<close> always has its three keys, so its own truth value is True.
\<close>

definition update_tools ::
  "py_equality \<Rightarrow> string \<Rightarrow> snapshot \<Rightarrow> snapshot \<Rightarrow> tool_change_manager
     \<Rightarrow> tool_change_manager \<times> tool_changes" where
  "update_tools eq now existing_tools_desc new_tools_desc m =
     (let m1 = m\<lparr>previous_tools := existing_tools_desc, current_tools := new_tools_desc\<rparr>;
          chg = detect_changes eq m1
      in if length (added chg) \<noteq> 0 \<or> length (modified chg) \<noteq> 0 \<or> length (removed chg) \<noteq> 0
         then (m1\<lparr>change_history := change_history m1 @ [\<lparr>timestamp = now, changes = chg\<rparr>]\<rparr>, chg)
         else (m1, chg))"

record change_summary =
  current_tools_count :: nat
  previous_tools_count :: nat
  recent_changes :: "change_record list"
  tool_details_current :: "string list"
  tool_details_previous :: "string list"

definition get_change_summary :: "tool_change_manager \<Rightarrow> change_summary" where
  "get_change_summary m =
     \<lparr>current_tools_count = length (current_tools m),
      previous_tools_count = length (previous_tools m),
      recent_changes = (if change_history m \<noteq> []
                        then drop (length (change_history m) - 2) (change_history m) else []),
      tool_details_current = keys (current_tools m),
      tool_details_previous = keys (previous_tools m)\<rparr>"

text \<open>The states of the tracker: the initial one and what any call of \<open>update_tools\<close> leaves.\<close>

inductive reachable :: "py_equality \<Rightarrow> tool_change_manager \<Rightarrow> bool" for eq where
  reachable_init: "reachable eq init_change_manager"
| reachable_update: "reachable eq m \<Longrightarrow> reachable eq (fst (update_tools eq now e n m))"

section \<open>Observations and example data used in the statements\<close>

text \<open>The tracked files of a plugin directory as they are on disk.\<close>

definition on_disk :: "fs_entry \<Rightarrow> (string \<rightharpoonup> mtime)" where
  "on_disk d = (\<lambda>f. if f = ''tool.py'' then tool_py d
                     else if f = ''requirements.txt'' then requirements_txt d else None)"

text \<open>The names carried by the three lists of a diff, and the names left unchanged.\<close>

definition added_names :: "tool_changes \<Rightarrow> string set" where
  "added_names chg = item_name ` set (added chg)"
definition removed_names :: "tool_changes \<Rightarrow> string set" where
  "removed_names chg = item_name ` set (removed chg)"
definition modified_names :: "tool_changes \<Rightarrow> string set" where
  "modified_names chg = mod_name ` set (modified chg)"
definition descriptors_differ :: "py_equality \<Rightarrow> snapshot \<Rightarrow> snapshot \<Rightarrow> string \<Rightarrow> bool" where
  "descriptors_differ eq cur prev n =
     (case (map_of cur n, map_of prev n) of
        (Some c, Some p) \<Rightarrow> \<not> dict_equal eq c p
      | _ \<Rightarrow> False)"
definition unchanged_names :: "py_equality \<Rightarrow> snapshot \<Rightarrow> snapshot \<Rightarrow> string set" where
  "unchanged_names eq prev cur =
     {n \<in> set (keys cur) \<inter> set (keys prev). \<not> descriptors_differ eq cur prev n}"

definition nonempty_diff :: "tool_changes \<Rightarrow> bool" where
  "nonempty_diff chg \<longleftrightarrow> added chg \<noteq> [] \<or> removed chg \<noteq> [] \<or> modified chg \<noteq> []"

text \<open>
  Example data. \<open>scalar_eq\<close> stands for Python's \<open>==\<close> in the examples, whose values are
  \<open>None\<close>, booleans, integers and strings: a boolean equals the integer 0 or 1.
\<close>

definition scalar_eq :: py_equality where
  "scalar_eq a b =
     (case (a, b) of
        (PBool x, PInt j) \<Rightarrow> (if x then 1 else 0) = j
      | (PInt i, PBool y) \<Rightarrow> i = (if y then 1 else 0)
      | _ \<Rightarrow> a = b)"

definition cache_ex :: tools_cache where
  "cache_ex = [(''calc'', \<lparr>tools = [0], file_mtimes = Some [(''tool.py'', 5)], last_loaded = 6\<rparr>),
               (''web'', \<lparr>tools = [1], file_mtimes = Some [(''tool.py'', 7)], last_loaded = 8\<rparr>)]"

definition calc_dir :: fs_entry where
  "calc_dir = \<lparr>entry_name = ''calc'', is_dir = True, tool_py = Some 5, requirements_txt = None\<rparr>"

definition pycache_dir :: fs_entry where
  "pycache_dir = \<lparr>entry_name = ''__pycache__'', is_dir = True, tool_py = None, requirements_txt = None\<rparr>"

definition odd_dir :: fs_entry where
  "odd_dir = \<lparr>entry_name = ''2fa'', is_dir = True, tool_py = Some 1, requirements_txt = None\<rparr>"

definition desc_add_v1 :: descriptor where
  "desc_add_v1 = [''name'' \<mapsto> PStr ''calc-add'', ''description'' \<mapsto> PStr ''Add'']"
definition desc_add_v2 :: descriptor where
  "desc_add_v2 = [''name'' \<mapsto> PStr ''calc-add'', ''description'' \<mapsto> PStr ''Add two numbers'']"
definition desc_mul :: descriptor where
  "desc_mul = [''name'' \<mapsto> PStr ''calc-mul'', ''description'' \<mapsto> PStr ''Multiply'']"
definition desc_old :: descriptor where
  "desc_old = [''name'' \<mapsto> PStr ''calc-old'', ''description'' \<mapsto> PStr ''Old'']"

definition desc_flag_v1 :: descriptor where
  "desc_flag_v1 = [''enabled'' \<mapsto> PBool True]"
definition desc_flag_v2 :: descriptor where
  "desc_flag_v2 = [''enabled'' \<mapsto> PInt 1]"

definition tracker_ex :: tool_change_manager where
  "tracker_ex = \<lparr>previous_tools = [(''calc-add'', desc_add_v1), (''calc-old'', desc_old),
                                    (''calc-flag'', desc_flag_v1)],
                  current_tools = [(''calc-add'', desc_add_v2), (''calc-mul'', desc_mul),
                                   (''calc-flag'', desc_flag_v2)],
                  change_history = []\<rparr>"

text \<open>A tool whose descriptor loses the key \<open>title\<close>, which held \<open>None\<close>.\<close>

definition tracker_none_ex :: tool_change_manager where
  "tracker_none_ex = \<lparr>previous_tools = [(''calc-add'', [''title'' \<mapsto> PNone])],
                       current_tools = [(''calc-add'', Map.empty)],
                       change_history = []\<rparr>"

text \<open>\<open>grow eq n\<close>: the tracker after \<open>n\<close> updates that each report one added tool.\<close>

primrec grow :: "py_equality \<Rightarrow> nat \<Rightarrow> tool_change_manager" where
  "grow eq 0 = init_change_manager"
| "grow eq (Suc n) =
     fst (update_tools eq ''2025-01-01T00:00:00'' [] [(''calc-add'', Map.empty)] (grow eq n))"

section \<open>Execution worker\<close>

text \<open>
  An exception raised while the worker runs. Of its class the worker's \<open>except\<close> clauses tell
  whether it is \<open>TypeError\<close>, \<open>ValueError\<close> or a subclass of one of them; another class that
  derives from \<open>Exception\<close>; or a class that does not (\<open>SystemExit\<close>, \<open>KeyboardInterrupt\<close>).
  \<open>exc_str\<close> is what \<open>str(e)\<close> does, which runs the \<open>__str__\<close> of the class and may raise in
  turn, and \<open>exc_traceback\<close> the text of \<open>traceback.format_exc()\<close>. A call returns a value or
  raises.
\<close>

datatype exception_class = TypeOrValueError | OtherException | NotException

datatype ('a, 'e) result = Returns 'a | Raises 'e

datatype py_exception =
  PyException (exc_class: exception_class) (exc_str: "(string, py_exception) result")
    (exc_traceback: string)

type_synonym 'a outcome = "('a, py_exception) result"

definition is_Exception :: "py_exception \<Rightarrow> bool" where
  "is_Exception e \<longleftrightarrow> exc_class e \<noteq> NotException"

text \<open>
  A module attribute is a callable, given by what a call with positional and keyword
  arguments does, or another value. Of a loaded module the worker observes
  \<open>hasattr(module, name)\<close>, \<open>getattr(module, name)\<close> and \<open>dir(module)\<close>.
\<close>

datatype attribute =
    Callable "pyval list \<Rightarrow> (string \<times> pyval) list \<Rightarrow> pyval outcome"
  | NotCallable pyval

record py_module =
  mod_hasattr :: "string \<Rightarrow> bool outcome"
  mod_getattr :: "string \<Rightarrow> attribute outcome"
  mod_dir :: "string list outcome"

text \<open>
  What the worker finds for a module path: whether the file exists, whether
  \<open>spec_from_file_location\<close> gives a spec with a loader, and what creating and executing the
  module does.
\<close>

record module_source =
  path_exists :: bool
  spec_found :: bool
  exec_module :: "py_module outcome"

text \<open>
  The library functions of the worker: \<open>json.dumps\<close> on a value, which returns a text that
  the worker drops, or raises; \<open>str\<close> on a value, which may raise as well; and the text that
  an f-string puts for a list of names.
\<close>

record worker_lib =
  json_dumps :: "pyval \<Rightarrow> unit outcome"
  py_str :: "pyval \<Rightarrow> string outcome"
  repr_list :: "string list \<Rightarrow> string"

text \<open>
  \<open>serialize_result\<close>: the value itself when \<open>json.dumps\<close> returns, its \<open>str\<close> when \<open>json.dumps\<close>
  raises \<open>TypeError\<close> or \<open>ValueError\<close>; any other exception of \<open>json.dumps\<close> and any exception
  of \<open>str\<close> leaves the function.
\<close>

definition serialize_result :: "worker_lib \<Rightarrow> pyval \<Rightarrow> pyval outcome" where
  "serialize_result lib obj =
     (case json_dumps lib obj of
        Returns u \<Rightarrow> Returns obj
      | Raises e \<Rightarrow>
          if exc_class e = TypeOrValueError
          then (case py_str lib obj of
                  Returns s \<Rightarrow> Returns (PStr s)
                | Raises e2 \<Rightarrow> Raises e2)
          else Raises e)"

text \<open>
  \<open>execute_tool\<close>. The body runs under \<open>try ... except Exception\<close>: an exception whose class
  derives from \<open>Exception\<close> becomes the failure dictionary, unless its \<open>str\<close> raises; any other
  one leaves the function.
\<close>

definition execute_tool_body ::
  "worker_lib \<Rightarrow> module_source \<Rightarrow> string \<Rightarrow> string \<Rightarrow> pyval list \<Rightarrow> (string \<times> pyval) list
     \<Rightarrow> (string \<times> pyval) list outcome" where
  "execute_tool_body lib src module_path function_name args kwargs =
     (if \<not> path_exists src
      then Returns [(''success'', PBool False),
                    (''error'', PStr (''Module file not found: '' @ module_path))]
      else if \<not> spec_found src
      then Returns [(''success'', PBool False),
                    (''error'', PStr (''Cannot load module from '' @ module_path))]
      else (case exec_module src of
              Raises e \<Rightarrow> Raises e
            | Returns tool_module \<Rightarrow>
                (case mod_hasattr tool_module function_name of
                   Raises e \<Rightarrow> Raises e
                 | Returns found \<Rightarrow>
                     if \<not> found
                     then (case mod_dir tool_module of
                             Raises e \<Rightarrow> Raises e
                           | Returns names \<Rightarrow>
                               (let available_functions = filter (\<lambda>name. \<not> startswith name ''_'') names
                                in Returns [(''success'', PBool False),
                                            (''error'', PStr (''Function '' @ function_name @
                                               '' not found in module. Available functions: '' @
                                               repr_list lib available_functions))]))
                     else (case mod_getattr tool_module function_name of
                             Raises e \<Rightarrow> Raises e
                           | Returns (NotCallable v) \<Rightarrow>
                               Returns [(''success'', PBool False),
                                        (''error'', PStr (function_name @ '' is not callable''))]
                           | Returns (Callable func) \<Rightarrow>
                               (case func args kwargs of
                                  Raises e \<Rightarrow> Raises e
                                | Returns result \<Rightarrow>
                                    (case serialize_result lib result of
                                       Raises e \<Rightarrow> Raises e
                                     | Returns serialized_result \<Rightarrow>
                                         Returns [(''success'', PBool True),
                                                  (''result'', serialized_result)]))))))"

definition execute_tool ::
  "worker_lib \<Rightarrow> module_source \<Rightarrow> string \<Rightarrow> string \<Rightarrow> pyval list \<Rightarrow> (string \<times> pyval) list
     \<Rightarrow> (string \<times> pyval) list outcome" where
  "execute_tool lib src module_path function_name args kwargs =
     (case execute_tool_body lib src module_path function_name args kwargs of
        Returns d \<Rightarrow> Returns d
      | Raises e \<Rightarrow>
          if is_Exception e
          then (case exc_str e of
                  Returns s \<Rightarrow>
                    Returns [(''success'', PBool False), (''error'', PStr s),
                             (''traceback'', PStr (exc_traceback e))]
                | Raises e2 \<Rightarrow> Raises e2)
          else Raises e)"

section \<open>Tool proxy\<close>

text \<open>
  What \<open>json.dumps\<close> accepts among these values: everything but a bound method, also inside
  lists and dictionaries (the interpreter's limits on the digits of an integer and on the
  depth of nesting apart). For a value it rejects it raises \<open>TypeError\<close>.
\<close>

fun json_serializable :: "pyval \<Rightarrow> bool" where
  "json_serializable PNone = True"
| "json_serializable (PBool b) = True"
| "json_serializable (PInt i) = True"
| "json_serializable (PStr s) = True"
| "json_serializable (PList xs) = (\<forall>x \<in> set xs. json_serializable x)"
| "json_serializable (PDict kvs) = (\<forall>v \<in> set (map snd kvs). json_serializable v)"
| "json_serializable (PBoundCall p) = False"

datatype proxy_error =
    FileNotFoundError string
  | TypeError string
  | TimeoutError string
  | RuntimeError string
  | KeyError string
  | AttributeError string
  | OSError string

text \<open>What \<open>subprocess.run\<close> does: it completes with the worker's stdout, times out, or fails to start.\<close>

datatype run_result = Completed string | TimeoutExpired | LaunchFailed string

text \<open>Python's truth value of a value, and the text an f-string puts for it.\<close>

definition truthy :: "pyval \<Rightarrow> bool" where
  "truthy v = (case v of
                 PNone \<Rightarrow> False
               | PBool b \<Rightarrow> b
               | PInt i \<Rightarrow> i \<noteq> 0
               | PStr s \<Rightarrow> s \<noteq> []
               | PList xs \<Rightarrow> xs \<noteq> []
               | PDict kvs \<Rightarrow> kvs \<noteq> []
               | PBoundCall p \<Rightarrow> True)"

definition format_value :: "(pyval \<Rightarrow> string) \<Rightarrow> pyval \<Rightarrow> string" where
  "format_value str_of v = (case v of PStr s \<Rightarrow> s | _ \<Rightarrow> str_of v)"

text \<open>\<open>d.get(k)\<close> and \<open>d.get(k, default)\<close> on a dictionary inside a value.\<close>

definition alist_get :: "(string \<times> pyval) list \<Rightarrow> string \<Rightarrow> pyval \<Rightarrow> pyval" where
  "alist_get d k dflt = (case map_of d k of None \<Rightarrow> dflt | Some v \<Rightarrow> v)"

text \<open>
  \<open>ToolProxy.__call__\<close>; \<open>json_loads\<close> is \<open>json.loads\<close>, \<open>None\<close> standing for \<open>JSONDecodeError\<close>.
  The parameters are encoded with \<open>json.dumps\<close> before the worker is started, which raises
  for a value it cannot encode. A parsed value that is not a dictionary has no \<open>get\<close>.
\<close>

definition proxy_call ::
  "(string \<Rightarrow> pyval option) \<Rightarrow> (pyval \<Rightarrow> string) \<Rightarrow> tool_proxy \<Rightarrow> string \<Rightarrow> bool
     \<Rightarrow> pyval list \<Rightarrow> (string \<times> pyval) list \<Rightarrow> run_result \<Rightarrow> proxy_error + pyval" where
  "proxy_call json_loads str_of self script_path script_exists args kwargs run =
     (if \<not> script_exists
      then Inl (FileNotFoundError (''Tool execution script not found: '' @ script_path))
      else if \<not> json_serializable
                   (PDict [(''module_path'', PStr ''tool.py''),
                           (''function_name'', proxy_function_name self),
                           (''args'', PList args), (''kwargs'', PDict kwargs)])
      then Inl (TypeError ''Object is not JSON serializable'')
      else (case run of
              LaunchFailed msg \<Rightarrow> Inl (OSError msg)
            | TimeoutExpired \<Rightarrow>
                Inl (TimeoutError (''Tool '' @ format_value str_of (proxy_tool_name self) @
                                   '' execution timeout (>60s)''))
            | Completed stdout \<Rightarrow>
                (case json_loads stdout of
                   None \<Rightarrow> Inr (PStr stdout)
                 | Some (PDict output) \<Rightarrow>
                     if truthy (alist_get output ''success'' PNone)
                     then (case map_of output ''result'' of
                             None \<Rightarrow> Inl (KeyError ''result'')
                           | Some r \<Rightarrow> Inr r)
                     else Inl (RuntimeError (''Tool execution error: '' @
                            format_value str_of (alist_get output ''error'' (PStr [])) @ [CHR 0x0A] @
                            format_value str_of (alist_get output ''traceback'' (PStr []))))
                 | Some other \<Rightarrow> Inl (AttributeError ''get''))))"

text \<open>
  Example data for the execution worker. The library stand-ins are those of the values of
  the examples: \<open>json.dumps\<close> and \<open>str\<close> raise \<open>ValueError\<close> for an integer of more than 4300
  digits, \<open>json.dumps\<close> raises \<open>TypeError\<close> for a value that holds an object, whose \<open>str\<close> is
  put as \<open><object>\<close>, and a list of names is printed with its names in single quotes.
\<close>

definition sys_exit :: py_exception where
  "sys_exit = PyException NotException (Returns ''1'') ''SystemExit: 1''"

definition type_error :: py_exception where
  "type_error = PyException TypeOrValueError
                  (Returns ''add() missing 2 required positional arguments'')
                  ''Traceback (most recent call last): TypeError''"

definition not_serializable :: py_exception where
  "not_serializable = PyException TypeOrValueError
                        (Returns ''Object of type method is not JSON serializable'')
                        ''Traceback (most recent call last): TypeError''"

definition digits_error :: py_exception where
  "digits_error = PyException TypeOrValueError
                    (Returns (''Exceeds the limit (4300 digits) for integer string conversion; '' @
                              ''use sys.set_int_max_str_digits() to increase the limit''))
                    ''Traceback (most recent call last): ValueError''"

definition attribute_error :: py_exception where
  "attribute_error = PyException OtherException
                       (Returns ''module has no such attribute'')
                       ''Traceback (most recent call last): AttributeError''"

definition huge :: int where
  "huge = 10 ^ 4300"

fun join_comma :: "string list \<Rightarrow> string" where
  "join_comma [] = []"
| "join_comma [x] = x"
| "join_comma (x # y # ys) = x @ '', '' @ join_comma (y # ys)"

definition repr_names :: "string list \<Rightarrow> string" where
  "repr_names ns = ''['' @ join_comma (map (\<lambda>n. [CHR 0x27] @ n @ [CHR 0x27]) ns) @ '']''"

definition worker_lib_ex :: worker_lib where
  "worker_lib_ex =
     \<lparr>json_dumps = (\<lambda>v. if v = PInt huge then Raises digits_error
                         else if json_serializable v then Returns ()
                         else Raises not_serializable),
      py_str = (\<lambda>v. if v = PInt huge then Raises digits_error else Returns ''<object>''),
      repr_list = repr_names\<rparr>"

definition calc_attrs :: "(string \<times> attribute) list" where
  "calc_attrs =
     [(''__name__'', NotCallable (PStr ''tool_module'')),
      (''_helper'', Callable (\<lambda>args kwargs. Returns PNone)),
      (''add'', Callable (\<lambda>args kwargs.
          case args of [PInt a, PInt b] \<Rightarrow> Returns (PInt (a + b)) | _ \<Rightarrow> Raises type_error)),
      (''big'', Callable (\<lambda>args kwargs. Returns (PInt huge))),
      (''handle'', Callable (\<lambda>args kwargs. Returns (PBoundCall (ToolProxy 0 ''calc'' ''python'' PNone PNone)))),
      (''quit'', Callable (\<lambda>args kwargs. Raises sys_exit))]"

definition calc_module :: py_module where
  "calc_module =
     \<lparr>mod_hasattr = (\<lambda>name. Returns (map_of calc_attrs name \<noteq> None)),
      mod_getattr = (\<lambda>name. case map_of calc_attrs name of
                                Some a \<Rightarrow> Returns a
                              | None \<Rightarrow> Raises attribute_error),
      mod_dir = Returns (keys calc_attrs)\<rparr>"

definition calc_source :: module_source where
  "calc_source = \<lparr>path_exists = True, spec_found = True, exec_module = Returns calc_module\<rparr>"

text \<open>Example data for the proxy: a stand-in for \<open>json.loads\<close> on three outputs.\<close>

definition loads_ex :: "string \<Rightarrow> pyval option" where
  "loads_ex s =
     (if s = ''{success: true, result: 5}''
      then Some (PDict [(''success'', PBool True), (''result'', PInt 5)])
      else if s = ''{success: false, error: boom, traceback: tb}''
      then Some (PDict [(''success'', PBool False), (''error'', PStr ''boom''), (''traceback'', PStr ''tb'')])
      else None)"

definition proxy_ex :: tool_proxy where
  "proxy_ex = ToolProxy 0 ''/srv/tools/calc'' ''/srv/tools/calc/venv/bin/python''
                (PStr ''calc-add'') (PStr ''add'')"

section \<open>Dynamic loader\<close>

text \<open>
  Descriptor dictionaries are objects shared by reference between the cache, the load
  result, the proxies and \<open>register_tools_to_mcp\<close>: a heap maps addresses to their current
  contents. A dictionary parsed from a worker's output is a new object.
\<close>

record heap =
  cells :: "addr \<Rightarrow> descriptor"
  next_free :: addr

fun alloc_all :: "heap \<Rightarrow> descriptor list \<Rightarrow> heap \<times> addr list" where
  "alloc_all h [] = (h, [])"
| "alloc_all h (d # ds) =
     (let h1 = h\<lparr>cells := (cells h)(next_free h := d), next_free := Suc (next_free h)\<rparr>;
          (h2, as) = alloc_all h1 ds
      in (h2, next_free h # as))"

text \<open>
  What \<open>load_tools_from_environment\<close> returns for a plugin directory, by the keys that
  \<open>load_all_tools\<close> looks at: \<open>"error"\<close>, else \<open>"tools"\<close>, else neither.
\<close>

datatype env_load = LoadError string | LoadTools "descriptor list" | LoadNeither

record load_acc =
  all_tools :: "(pyval \<times> addr) list"
  errors :: "(string \<times> string) list"
  cache_hits :: nat
  cache_misses :: nat

text \<open>A dictionary key must be hashable: lists and dictionaries are not.\<close>

definition hashable :: "pyval \<Rightarrow> bool" where
  "hashable v = (case v of PList xs \<Rightarrow> False | PDict kvs \<Rightarrow> False | _ \<Rightarrow> True)"

text \<open>
  \<open>for tool_metadata in tools: all_tools[tool_metadata["name"]] = tool_metadata\<close>; \<open>None\<close> is
  the \<open>KeyError\<close> of a descriptor without a name (or the \<open>TypeError\<close> of an unhashable one).
\<close>

fun add_tools :: "heap \<Rightarrow> addr list \<Rightarrow> (pyval \<times> addr) list \<Rightarrow> (pyval \<times> addr) list option" where
  "add_tools h [] acc = Some acc"
| "add_tools h (a # as) acc =
     (case cells h a ''name'' of
        None \<Rightarrow> None
      | Some tool_name \<Rightarrow>
          if hashable tool_name then add_tools h as (AList.update tool_name a acc) else None)"

text \<open>The body of the loop of \<open>load_all_tools\<close> for one plugin directory.\<close>

definition load_dir ::
  "(fs_entry \<Rightarrow> env_load) \<Rightarrow> rat \<Rightarrow> string option \<Rightarrow> heap \<times> tools_cache \<times> load_acc \<Rightarrow> fs_entry
     \<Rightarrow> (heap \<times> tools_cache \<times> load_acc) option" where
  "load_dir env now request_tool_dir st tool_dir =
     (case st of (h, cache, acc) \<Rightarrow>
        if request_tool_dir \<noteq> None \<and> request_tool_dir \<noteq> Some (entry_name tool_dir)
        then Some (h, cache, acc)
        else if is_tool_cache_valid cache tool_dir
        then (case map_of cache (entry_name tool_dir) of
                None \<Rightarrow> None
              | Some cached_data \<Rightarrow>
                  (case add_tools h (tools cached_data) (all_tools acc) of
                     None \<Rightarrow> None
                   | Some all' \<Rightarrow>
                       Some (h, cache, acc\<lparr>all_tools := all', cache_hits := cache_hits acc + 1\<rparr>)))
        else (case env tool_dir of
                LoadError msg \<Rightarrow>
                  Some (h, cache, acc\<lparr>errors := errors acc @ [(entry_name tool_dir, msg)],
                                        cache_misses := cache_misses acc + 1\<rparr>)
              | LoadTools ds \<Rightarrow>
                  (let (h1, as) = alloc_all h ds in
                   case add_tools h1 as (all_tools acc) of
                     None \<Rightarrow> None
                   | Some all' \<Rightarrow>
                       Some (h1, update_tool_cache now cache tool_dir as,
                             acc\<lparr>all_tools := all', cache_misses := cache_misses acc + 1\<rparr>))
              | LoadNeither \<Rightarrow>
                  Some (h, cache, acc\<lparr>cache_misses := cache_misses acc + 1\<rparr>)))"

fun load_dirs ::
  "(fs_entry \<Rightarrow> env_load) \<Rightarrow> rat \<Rightarrow> string option \<Rightarrow> heap \<times> tools_cache \<times> load_acc \<Rightarrow> fs_entry list
     \<Rightarrow> (heap \<times> tools_cache \<times> load_acc) option" where
  "load_dirs env now request_tool_dir st [] = Some st"
| "load_dirs env now request_tool_dir st (tool_dir # rest) =
     (case load_dir env now request_tool_dir st tool_dir of
        None \<Rightarrow> None
      | Some st1 \<Rightarrow> load_dirs env now request_tool_dir st1 rest)"

text \<open>
  \<open>load_all_tools\<close>: the heap and the cache after the scan, and the result (its counts
  \<open>total_tools\<close> and \<open>total_errors\<close> are the lengths of the two lists).
\<close>

definition load_all_tools ::
  "(fs_entry \<Rightarrow> env_load) \<Rightarrow> rat \<Rightarrow> fs_entry list \<Rightarrow> string option \<Rightarrow> heap \<times> tools_cache
     \<Rightarrow> (heap \<times> tools_cache \<times> load_acc) option" where
  "load_all_tools env now listing request_tool_dir st =
     (case st of (h, cache) \<Rightarrow>
        load_dirs env now request_tool_dir
          (h, cache, \<lparr>all_tools = [], errors = [], cache_hits = 0, cache_misses = 0\<rparr>)
          (get_tool_directories listing))"

text \<open>
  \<open>ToolProxy.__init__\<close> through \<open>create_proxy\<close>: \<open>None\<close> when the descriptor has no name, or
  no \<open>function_name\<close> and a name that is not a string, or a name that cannot be a key of
  the manager's dictionary of proxies.
\<close>

definition last_part :: "string \<Rightarrow> string" where
  "last_part s = (case rev (split_on CHR ''.'' s) of [] \<Rightarrow> [] | w # ws \<Rightarrow> w)"

definition create_proxy :: "heap \<Rightarrow> addr \<Rightarrow> string \<Rightarrow> string \<Rightarrow> tool_proxy option" where
  "create_proxy h tool_data tool_dir python_exe =
     (case cells h tool_data ''name'' of
        None \<Rightarrow> None
      | Some tool_name \<Rightarrow>
          (case cells h tool_data ''function_name'' of
             Some fname \<Rightarrow>
               if hashable tool_name
               then Some (ToolProxy tool_data tool_dir python_exe tool_name fname)
               else None
           | None \<Rightarrow>
               (case tool_name of
                  PStr s \<Rightarrow> Some (ToolProxy tool_data tool_dir python_exe tool_name (PStr (last_part s)))
                | _ \<Rightarrow> None)))"

record tool_info =
  info_tool_data :: addr
  info_proxy :: tool_proxy
  info_tool_dir :: string
  info_python_exe :: string

text \<open>
  The loop of \<open>scan_and_load_tools\<close> over the load result. \<open>tool_dir.exists()\<close> holds for the
  name of an entry of the plugin root (and for the empty name, the root itself);
  \<open>python_exe\<close> is \<open>get_python_executable\<close>, \<open>None\<close> when it raises. A tool name that is not
  a string has no \<open>split\<close>: the scan fails (\<open>None\<close>).
\<close>

fun make_proxies ::
  "(string \<Rightarrow> string option) \<Rightarrow> fs_entry list \<Rightarrow> heap \<Rightarrow> (pyval \<times> addr) list
     \<Rightarrow> (string \<times> tool_info) list \<Rightarrow> (string \<times> tool_info) list option" where
  "make_proxies python_exe listing h [] new_tools = Some new_tools"
| "make_proxies python_exe listing h ((tool_name, tool_data) # rest) new_tools =
     (case tool_name of
        PStr name \<Rightarrow>
          (let tool_dir_name = split_first CHR ''-'' name in
           if tool_dir_name = [] \<or> tool_dir_name \<in> set (map entry_name listing)
           then (case python_exe tool_dir_name of
                   None \<Rightarrow> make_proxies python_exe listing h rest new_tools
                 | Some exe \<Rightarrow>
                     (case create_proxy h tool_data tool_dir_name exe of
                        None \<Rightarrow> make_proxies python_exe listing h rest new_tools
                      | Some proxy \<Rightarrow>
                          make_proxies python_exe listing h rest
                            (AList.update name
                               \<lparr>info_tool_data = tool_data, info_proxy = proxy,
                                info_tool_dir = tool_dir_name, info_python_exe = exe\<rparr>
                               new_tools)))
           else make_proxies python_exe listing h rest new_tools)
      | _ \<Rightarrow> None)"

definition scan_and_load_tools ::
  "(fs_entry \<Rightarrow> env_load) \<Rightarrow> (string \<Rightarrow> string option) \<Rightarrow> rat \<Rightarrow> fs_entry list \<Rightarrow> string option
     \<Rightarrow> heap \<times> tools_cache \<Rightarrow> ((heap \<times> tools_cache) \<times> (string \<times> tool_info) list) option" where
  "scan_and_load_tools env python_exe now listing request_tool_name st =
     (case load_all_tools env now listing
             (case request_tool_name of None \<Rightarrow> None | Some r \<Rightarrow> Some (split_first CHR ''-'' r)) st of
        None \<Rightarrow> None
      | Some (h, cache, load_result) \<Rightarrow>
          (case make_proxies python_exe listing h (all_tools load_result) [] of
             None \<Rightarrow> None
           | Some new_tools \<Rightarrow> Some ((h, cache), new_tools)))"

text \<open>
  The registry of the MCP server (\<open>mcp._tool_manager._tools\<close>) maps a tool's key to a
  \<open>FunctionTool\<close>. Of the FastMCP library the model takes \<open>FunctionTool.model_validate\<close>
  (\<open>None\<close> when it raises), \<open>model_dump\<close> and the tool's key as parameters. \<open>add_tool\<close> stores
  the tool under its key, \<open>remove_tool\<close> deletes a name.
\<close>

record 'ft fastmcp =
  model_validate :: "descriptor \<Rightarrow> 'ft option"
  model_dump :: "'ft \<Rightarrow> descriptor"
  tool_key :: "'ft \<Rightarrow> string"

type_synonym 'ft registry = "(string \<times> 'ft) list"

definition add_tool :: "'ft fastmcp \<Rightarrow> 'ft \<Rightarrow> 'ft registry \<Rightarrow> 'ft registry" where
  "add_tool lib tool reg = AList.update (tool_key lib tool) tool reg"

definition remove_tool :: "string \<Rightarrow> 'ft registry \<Rightarrow> 'ft registry" where
  "remove_tool tool_name reg = AList.delete tool_name reg"

text \<open>\<open>model_dump()\<close> followed by \<open>del v["fn"]\<close>; a \<open>FunctionTool\<close> always has the field \<open>fn\<close>.\<close>

definition dump_without_fn :: "'ft fastmcp \<Rightarrow> 'ft \<Rightarrow> descriptor" where
  "dump_without_fn lib tool = (model_dump lib tool)(''fn'' := None)"

text \<open>
  The first loop of \<open>register_tools_to_mcp\<close>, body and iteration. The assignment \<open>tool_data["fn"] = proxy.__call__\<close>
  writes into the descriptor object itself, before validation; a validation error is logged
  and the loop goes on.
\<close>

definition register_one ::
  "'ft fastmcp \<Rightarrow> string \<times> tool_info \<Rightarrow> heap \<times> 'ft registry \<times> snapshot
     \<Rightarrow> heap \<times> 'ft registry \<times> snapshot" where
  "register_one lib item st =
     (case (item, st) of ((tool_name, tool_info), (h, reg, new_tools_desc)) \<Rightarrow>
        let tool_data = info_tool_data tool_info;
            h1 = h\<lparr>cells := (cells h)(tool_data :=
                    (cells h tool_data)(''fn'' \<mapsto> PBoundCall (info_proxy tool_info)))\<rparr>
        in case model_validate lib
                  (cells h1 tool_data |` (- {''source_module'', ''function_name'', ''tool_name_prefix''})) of
             None \<Rightarrow> (h1, reg, new_tools_desc)
           | Some function_tool \<Rightarrow>
               (let reg1 = (if tool_name \<in> set (keys reg) then remove_tool tool_name reg else reg);
                    reg2 = add_tool lib function_tool reg1
                in (h1, reg2,
                    AList.update tool_name (dump_without_fn lib function_tool) new_tools_desc)))"

fun register_loop ::
  "'ft fastmcp \<Rightarrow> (string \<times> tool_info) list \<Rightarrow> heap \<times> 'ft registry \<times> snapshot
     \<Rightarrow> heap \<times> 'ft registry \<times> snapshot" where
  "register_loop lib [] st = st"
| "register_loop lib (item # rest) st = register_loop lib rest (register_one lib item st)"

text \<open>The second loop: removal of registered names that were not loaded.\<close>

fun remove_absent :: "string list \<Rightarrow> string list \<Rightarrow> string option \<Rightarrow> 'ft registry \<Rightarrow> 'ft registry" where
  "remove_absent [] loaded request_tool_dir reg = reg"
| "remove_absent (tool_name # rest) loaded request_tool_dir reg =
     (if tool_name \<notin> set loaded \<and> CHR ''-'' \<in> set tool_name
      then (if (case request_tool_dir of
                  None \<Rightarrow> False
                | Some d \<Rightarrow> \<not> startswith tool_name (d @ ''.''))
            then remove_absent rest loaded request_tool_dir reg
            else remove_absent rest loaded request_tool_dir (remove_tool tool_name reg))
      else remove_absent rest loaded request_tool_dir reg)"

text \<open>
  \<open>register_tools_to_mcp\<close>; \<open>tools_dir_name\<close> is \<open>self.tools_dir.name\<close> (\<open>tools\<close> in the server),
  \<open>now\<close> the timestamp of the change record, \<open>eq\<close> Python's \<open>==\<close> for the change tracker.
\<close>

definition register_tools_to_mcp ::
  "'ft fastmcp \<Rightarrow> py_equality \<Rightarrow> string \<Rightarrow> string \<Rightarrow> heap \<times> 'ft registry \<times> tool_change_manager
     \<Rightarrow> (string \<times> tool_info) list \<Rightarrow> string option
     \<Rightarrow> (heap \<times> 'ft registry \<times> tool_change_manager) \<times> tool_changes" where
  "register_tools_to_mcp lib eq tools_dir_name now st loaded_tools request_tool_name =
     (case st of (h, existing_tools, change_manager) \<Rightarrow>
        let existing_tools_desc =
              map (\<lambda>(k, v). (k, dump_without_fn lib v))
                  (filter (\<lambda>(k, v). CHR ''-'' \<in> set k) existing_tools);
            request_tool_dir =
              (case request_tool_name of
                 Some r \<Rightarrow> Some (split_first CHR ''-'' r)
               | None \<Rightarrow> Some tools_dir_name);
            (h1, reg1, new_tools_desc) = register_loop lib loaded_tools (h, existing_tools, []);
            reg2 = remove_absent (keys existing_tools_desc) (keys loaded_tools) request_tool_dir reg1;
            (cm1, changes) = update_tools eq now existing_tools_desc new_tools_desc change_manager
        in ((h1, reg2, cm1), changes))"

text \<open>
  Which registered names the second loop of \<open>register_tools_to_mcp\<close> deletes, read off its
  conditions.
\<close>

definition removal_applies :: "string list \<Rightarrow> string list \<Rightarrow> string option \<Rightarrow> string \<Rightarrow> bool" where
  "removal_applies existing loaded request_tool_dir n \<longleftrightarrow>
     n \<in> set existing \<and> n \<notin> set loaded \<and> CHR ''-'' \<in> set n \<and>
     (case request_tool_dir of None \<Rightarrow> True | Some d \<Rightarrow> startswith n (d @ ''.''))"

text \<open>
  Example data for reconciliation: a stand-in for the FastMCP library in which a validated
  tool is its dictionary; a registry holding \<open>calc-add\<close>; a load result holding only
  \<open>calc-mul\<close>.
\<close>

definition lib_ex :: "descriptor fastmcp" where
  "lib_ex = \<lparr>model_validate = (\<lambda>d. Some d), model_dump = (\<lambda>t. t),
             tool_key = (\<lambda>t. case t ''name'' of Some (PStr n) \<Rightarrow> n | _ \<Rightarrow> [])\<rparr>"

definition proxy_add :: tool_proxy where
  "proxy_add = ToolProxy 7 ''calc'' ''calc/venv/bin/python'' (PStr ''calc-add'') (PStr ''add'')"

definition proxy_mul :: tool_proxy where
  "proxy_mul = ToolProxy 0 ''calc'' ''calc/venv/bin/python'' (PStr ''calc-mul'') (PStr ''mul'')"

definition tool_add :: descriptor where
  "tool_add = [''name'' \<mapsto> PStr ''calc-add'', ''fn'' \<mapsto> PBoundCall proxy_add]"

definition data_mul :: descriptor where
  "data_mul = [''name'' \<mapsto> PStr ''calc-mul'', ''function_name'' \<mapsto> PStr ''mul'']"

definition heap_ex :: heap where
  "heap_ex = \<lparr>cells = (\<lambda>a. Map.empty)(0 := data_mul), next_free = 1\<rparr>"

definition registry_ex :: "descriptor registry" where
  "registry_ex = [(''calc-add'', tool_add)]"

definition loaded_ex :: "(string \<times> tool_info) list" where
  "loaded_ex = [(''calc-mul'', \<lparr>info_tool_data = 0, info_proxy = proxy_mul, info_tool_dir = ''calc'',
                                info_python_exe = ''calc/venv/bin/python''\<rparr>)]"

definition after_reconcile ::
  "py_equality \<Rightarrow> string option
     \<Rightarrow> (heap \<times> descriptor registry \<times> tool_change_manager) \<times> tool_changes" where
  "after_reconcile eq scope =
     register_tools_to_mcp lib_ex eq ''tools'' ''t1'' (heap_ex, registry_ex, init_change_manager)
       loaded_ex scope"

definition twice_reconcile ::
  "py_equality \<Rightarrow> (heap \<times> descriptor registry \<times> tool_change_manager) \<times> tool_changes" where
  "twice_reconcile eq =
     register_tools_to_mcp lib_ex eq ''tools'' ''t2'' (fst (after_reconcile eq None)) loaded_ex None"

text \<open>An address is cached when the cache entry of one of the given plugins lists it.\<close>

definition cached_in :: "tools_cache \<Rightarrow> string set \<Rightarrow> addr \<Rightarrow> bool" where
  "cached_in cache P a \<longleftrightarrow> (\<exists>plugin \<in> P. \<exists>e. map_of cache plugin = Some e \<and> a \<in> set (tools e))"

text \<open>Example data for a first scan of one plugin directory.\<close>

definition empty_heap :: heap where
  "empty_heap = \<lparr>cells = (\<lambda>a. Map.empty), next_free = 0\<rparr>"

definition env_ex :: "fs_entry \<Rightarrow> env_load" where
  "env_ex d = LoadTools [data_mul]"

definition python_ex :: "string \<Rightarrow> string option" where
  "python_ex d = Some (d @ ''/venv/bin/python'')"

definition cache1_ex :: tools_cache where
  "cache1_ex = [(''calc'', \<lparr>tools = [0], file_mtimes = Some [(''tool.py'', 5)], last_loaded = 9\<rparr>)]"

section \<open>Metadata cache: invalidation and validity\<close>

lemma map_of_filter_other:
  "M \<noteq> N \<Longrightarrow> map_of (filter (\<lambda>e. fst e \<noteq> N) xs) M = map_of xs M"
  by (induction xs) auto

lemma map_of_filter_self:
  "map_of (filter (\<lambda>e. fst e \<noteq> N) xs) N = None"
  by (induction xs) auto

lemma delete_is_filter: "AList.delete N xs = filter (\<lambda>e. fst e \<noteq> N) xs"
  by (induction xs) auto

text \<open>
  Claim C10. For a plugin name \<open>N\<close>, \<open>invalidate_tool_cache N\<close> and \<open>clear_cache N\<close> remove
  exactly the cache entry of \<open>N\<close> and report success (\<open>True\<close>, status \<open>success\<close>) when \<open>N\<close>
  is cached, every other entry staying as it was; when \<open>N\<close> is not cached they report
  failure (\<open>False\<close>, status \<open>warning\<close>) and the cache is unchanged. A plugin name is a
  directory name, hence not the empty string, which \<open>clear_cache\<close> treats like no argument.
\<close>

theorem cache_invalidation:
  "(N \<in> set (keys cache) \<longrightarrow>
      invalidate_tool_cache cache N = (filter (\<lambda>e. fst e \<noteq> N) cache, True) \<and>
      (N \<noteq> [] \<longrightarrow>
         fst (clear_cache cache (Some N)) = filter (\<lambda>e. fst e \<noteq> N) cache \<and>
         status (snd (clear_cache cache (Some N))) = ''success'') \<and>
      map_of (filter (\<lambda>e. fst e \<noteq> N) cache) N = None \<and>
      (\<forall>M. M \<noteq> N \<longrightarrow> map_of (filter (\<lambda>e. fst e \<noteq> N) cache) M = map_of cache M)) \<and>
   (N \<notin> set (keys cache) \<longrightarrow>
      invalidate_tool_cache cache N = (cache, False) \<and>
      (N \<noteq> [] \<longrightarrow>
         fst (clear_cache cache (Some N)) = cache \<and>
         status (snd (clear_cache cache (Some N))) = ''warning''))"
  by (simp add: invalidate_tool_cache_def clear_cache_def Let_def delete_is_filter
        map_of_filter_other map_of_filter_self)

theorem cache_invalidation_witness:
  "invalidate_tool_cache cache_ex ''calc'' = ([(''web'', \<lparr>tools = [1], file_mtimes = Some [(''tool.py'', 7)], last_loaded = 8\<rparr>)], True)
   \<and> status (snd (clear_cache cache_ex (Some ''calc''))) = ''success''
   \<and> invalidate_tool_cache cache_ex ''nope'' = (cache_ex, False)
   \<and> status (snd (clear_cache cache_ex (Some ''nope''))) = ''warning''"
  using cache_invalidation [of "''calc''" cache_ex] cache_invalidation [of "''nope''" cache_ex]
  by (simp add: cache_ex_def keys_def)

text \<open>Without a name, or with the empty name, \<open>clear_cache\<close> empties the whole cache.\<close>

lemma clear_cache_without_name:
  "fst (clear_cache cache None) = [] \<and> clear_cache cache (Some []) = clear_cache cache None"
  by (simp add: clear_cache_def)

lemma files_unmodified_iff:
  "files_unmodified cur cached \<longleftrightarrow>
     (\<forall>(f, t) \<in> set cur. \<exists>t'. map_of cached f = Some t' \<and> t \<le> t')"
  by (induction cur cached rule: files_unmodified.induct) (auto split: option.splits)

lemma files_not_deleted_iff:
  "files_not_deleted ks cur \<longleftrightarrow> set ks \<subseteq> set (keys cur)"
  by (induction ks) auto

lemma map_of_file_info: "map_of (get_tool_file_info d) = on_disk d"
  by (auto simp: get_tool_file_info_def on_disk_def fun_eq_iff split: option.splits)

lemma distinct_file_info: "distinct (map fst (get_tool_file_info d))"
  by (auto simp: get_tool_file_info_def split: option.splits)

lemma keys_dom: "set (keys xs) = dom (map_of xs)"
  by (simp add: keys_def dom_map_of_conv_image_fst)

text \<open>
  Claim C2. \<open>is_tool_cache_valid\<close> holds for a plugin directory exactly when a cache entry
  for it exists (with recorded modification times), the recorded set of tracked files equals
  the set of tracked files now on disk (\<open>tool.py\<close> and \<open>requirements.txt\<close>, as present), and
  every tracked file's current modification time is at most the recorded one.
\<close>

theorem cache_validity:
  "is_tool_cache_valid cache d \<longleftrightarrow>
     (\<exists>e fm. map_of cache (entry_name d) = Some e \<and> file_mtimes e = Some fm \<and>
         dom (map_of fm) = dom (on_disk d) \<and>
         (\<forall>f t. on_disk d f = Some t \<longrightarrow> (\<exists>t'. map_of fm f = Some t' \<and> t \<le> t')))"
proof -
  have in_set: "(f, t) \<in> set (get_tool_file_info d) \<longleftrightarrow> on_disk d f = Some t" for f t
    using map_of_eq_Some_iff [OF distinct_file_info, of d f t] by (simp add: map_of_file_info)
  have unmod: "files_unmodified (get_tool_file_info d) fm \<longleftrightarrow>
      (\<forall>f t. on_disk d f = Some t \<longrightarrow> (\<exists>t'. map_of fm f = Some t' \<and> t \<le> t'))" for fm
  proof -
    have "files_unmodified (get_tool_file_info d) fm \<longleftrightarrow>
      (\<forall>f t. (f, t) \<in> set (get_tool_file_info d) \<longrightarrow> (\<exists>t'. map_of fm f = Some t' \<and> t \<le> t'))"
      unfolding files_unmodified_iff by auto
    then show ?thesis by (simp only: in_set)
  qed
  have notdel: "files_not_deleted (keys fm) (get_tool_file_info d) \<longleftrightarrow>
      dom (map_of fm) \<subseteq> dom (on_disk d)" for fm
    by (simp add: files_not_deleted_iff keys_dom map_of_file_info)
  have sub: "(\<forall>f t. on_disk d f = Some t \<longrightarrow> (\<exists>t'. map_of fm f = Some t' \<and> t \<le> t'))
      \<Longrightarrow> dom (on_disk d) \<subseteq> dom (map_of fm)" for fm
    by (auto simp: dom_def)
  have core: "(files_unmodified (get_tool_file_info d) fm \<and>
               files_not_deleted (keys fm) (get_tool_file_info d)) \<longleftrightarrow>
      (dom (map_of fm) = dom (on_disk d) \<and>
       (\<forall>f t. on_disk d f = Some t \<longrightarrow> (\<exists>t'. map_of fm f = Some t' \<and> t \<le> t')))" for fm
    unfolding unmod notdel using sub [of fm] by blast
  show ?thesis
  proof (cases "map_of cache (entry_name d)")
    case None
    then show ?thesis by (simp add: is_tool_cache_valid_def)
  next
    case (Some e)
    show ?thesis
    proof (cases "file_mtimes e")
      case None
      with Some show ?thesis by (simp add: is_tool_cache_valid_def)
    next
      case (Some fm)
      have v: "is_tool_cache_valid cache d \<longleftrightarrow>
          (files_unmodified (get_tool_file_info d) fm \<and>
           files_not_deleted (keys fm) (get_tool_file_info d))"
        using Some \<open>map_of cache (entry_name d) = Some e\<close>
        by (simp add: is_tool_cache_valid_def Let_def)
      show ?thesis
        unfolding v core using Some \<open>map_of cache (entry_name d) = Some e\<close> by simp
    qed
  qed
qed

lemma on_disk_calc_dir: "on_disk calc_dir = [''tool.py'' \<mapsto> 5]"
  unfolding on_disk_def calc_dir_def by (rule ext) simp

lemma cache_ex_calc_dir: "map_of cache_ex (entry_name calc_dir) =
      Some \<lparr>tools = [0], file_mtimes = Some [(''tool.py'', 5)], last_loaded = 6\<rparr>"
  by (simp add: cache_ex_def calc_dir_def)

theorem cache_validity_witness:
  "is_tool_cache_valid cache_ex calc_dir"
proof -
  have "dom (map_of [(''tool.py'', 5::rat)]) = dom (on_disk calc_dir)"
    unfolding on_disk_calc_dir by simp
  moreover have "\<forall>f t. on_disk calc_dir f = Some t \<longrightarrow>
      (\<exists>t'. map_of [(''tool.py'', 5::rat)] f = Some t' \<and> t \<le> t')"
    unfolding on_disk_calc_dir by simp
  ultimately show ?thesis
    using cache_ex_calc_dir cache_validity [of cache_ex calc_dir] by simp
qed

section \<open>Directory scan\<close>

lemma pattern_not_underscore: "matches_name_pattern s \<Longrightarrow> \<not> startswith s ''_''"
  by (cases s) (auto simp: matches_name_pattern_def startswith_def is_letter_def)

text \<open>
  Claim C4, as stated, fails: the scan enumerates a directory named \<open>2fa\<close>, which does not
  match the name pattern.
\<close>

theorem directory_scan_pattern_counterexample:
  "odd_dir \<in> set (get_tool_directories [odd_dir]) \<and> \<not> matches_name_pattern (entry_name odd_dir)"
  by (simp add: get_tool_directories_def odd_dir_def startswith_def matches_name_pattern_def
        is_letter_def)

text \<open>
  Claim C4, amended. The scan enumerates exactly the entries of the plugin root that are
  directories and whose name does not start with \<open>_\<close>; so no enumerated name starts with
  \<open>_\<close> or is \<open>__pycache__\<close>, and every directory whose name matches the pattern is enumerated,
  but the pattern itself is not checked by the scan.
\<close>

theorem directory_scan:
  "set (get_tool_directories listing) =
     {e \<in> set listing. is_dir e \<and> \<not> startswith (entry_name e) ''_''} \<and>
   (\<forall>e \<in> set (get_tool_directories listing).
      \<not> startswith (entry_name e) ''_'' \<and> entry_name e \<noteq> ''__pycache__'') \<and>
   (\<forall>e \<in> set listing. is_dir e \<and> matches_name_pattern (entry_name e)
      \<longrightarrow> e \<in> set (get_tool_directories listing))"
proof -
  have "startswith ''__pycache__'' ''_''" by (simp add: startswith_def)
  then have "\<not> startswith s ''_'' \<Longrightarrow> s \<noteq> ''__pycache__''" for s by auto
  then show ?thesis
    using pattern_not_underscore by (auto simp: get_tool_directories_def)
qed

theorem directory_scan_witness:
  "calc_dir \<in> set (get_tool_directories [calc_dir, pycache_dir]) \<and>
   pycache_dir \<notin> set (get_tool_directories [calc_dir, pycache_dir])"
proof -
  have a: "is_dir calc_dir \<and> \<not> startswith (entry_name calc_dir) ''_''"
    by (simp add: calc_dir_def startswith_def)
  have b: "startswith (entry_name pycache_dir) ''_''"
    by (simp add: pycache_dir_def startswith_def)
  have "set (get_tool_directories [calc_dir, pycache_dir]) =
     {e \<in> set [calc_dir, pycache_dir]. is_dir e \<and> \<not> startswith (entry_name e) ''_''}"
    using directory_scan [of "[calc_dir, pycache_dir]"] by (rule conjunct1)
  then show ?thesis using a b by simp
qed

section \<open>Change tracker\<close>

lemma in_keys_map_of: "n \<in> set (keys d) \<longleftrightarrow> map_of d n \<noteq> None"
  by (simp add: keys_def map_of_eq_None_iff)

lemma detect_added_names:
  "map item_name (detect_added ks cur prev) =
     filter (\<lambda>n. n \<in> set (keys cur) \<and> n \<notin> set (keys prev)) ks"
  by (induction ks) (auto simp: in_keys_map_of split: option.splits)

lemma detect_removed_names:
  "map item_name (detect_removed ks cur prev) =
     filter (\<lambda>n. n \<in> set (keys prev) \<and> n \<notin> set (keys cur)) ks"
  by (induction ks) (auto simp: in_keys_map_of split: option.splits)

lemma detect_modified_names:
  "map mod_name (detect_modified eq ks cur prev) =
     filter (\<lambda>n. n \<in> set (keys cur) \<and> n \<in> set (keys prev) \<and> descriptors_differ eq cur prev n) ks"
  by (induction ks) (auto simp: in_keys_map_of descriptors_differ_def split: option.splits)

lemma detect_added_details:
  "\<forall>a \<in> set (detect_added ks cur prev). map_of cur (item_name a) = Some (item_details a)"
  by (induction ks) (auto split: option.splits)

lemma detect_removed_details:
  "\<forall>a \<in> set (detect_removed ks cur prev). map_of prev (item_name a) = Some (item_details a)"
  by (induction ks) (auto split: option.splits)

lemma detect_modified_details:
  "\<forall>x \<in> set (detect_modified eq ks cur prev).
     map_of prev (mod_name x) = Some (mod_previous x) \<and>
     map_of cur (mod_name x) = Some (mod_current x) \<and>
     mod_differences x = get_detailed_diff eq (mod_previous x) (mod_current x)"
  by (induction ks) (auto split: option.splits)

lemma get_detailed_diff_key:
  "get_detailed_diff eq old new k =
     (if k \<in> dom old \<union> dom new \<and> \<not> eq (dict_get old k) (dict_get new k)
      then Some (dict_get old k, dict_get new k) else None)"
  by (simp add: get_detailed_diff_def Let_def)

lemma detect_changes_facts:
  assumes "previous_tools m = prev" and "current_tools m = cur" and "chg = detect_changes eq m"
  shows "added_names chg = set (keys cur) - set (keys prev)"
    and "removed_names chg = set (keys prev) - set (keys cur)"
    and "modified_names chg = {n \<in> set (keys cur) \<inter> set (keys prev). descriptors_differ eq cur prev n}"
    and "\<forall>a \<in> set (added chg). map_of cur (item_name a) = Some (item_details a)"
    and "\<forall>r \<in> set (removed chg). map_of prev (item_name r) = Some (item_details r)"
    and "\<forall>x \<in> set (modified chg).
           map_of prev (mod_name x) = Some (mod_previous x) \<and>
           map_of cur (mod_name x) = Some (mod_current x) \<and>
           (\<forall>k. mod_differences x k =
              (if k \<in> dom (mod_previous x) \<union> dom (mod_current x) \<and>
                  \<not> eq (dict_get (mod_previous x) k) (dict_get (mod_current x) k)
               then Some (dict_get (mod_previous x) k, dict_get (mod_current x) k) else None))"
    and "added_names chg \<union> modified_names chg \<union> unchanged_names eq prev cur = set (keys cur)"
    and "added_names chg \<inter> modified_names chg = {}"
    and "added_names chg \<inter> unchanged_names eq prev cur = {}"
    and "modified_names chg \<inter> unchanged_names eq prev cur = {}"
    and "added_names chg \<inter> removed_names chg = {}"
    and "removed_names chg \<inter> modified_names chg = {}"
    and "removed_names chg \<subseteq> set (keys prev) - set (keys cur)"
proof -
  show a: "added_names chg = set (keys cur) - set (keys prev)"
    using assms detect_added_names [of "keys cur" cur prev]
    by (auto simp: added_names_def detect_changes_def simp flip: set_map)
  show r: "removed_names chg = set (keys prev) - set (keys cur)"
    using assms detect_removed_names [of "keys prev" cur prev]
    by (auto simp: removed_names_def detect_changes_def simp flip: set_map)
  show mo: "modified_names chg = {n \<in> set (keys cur) \<inter> set (keys prev). descriptors_differ eq cur prev n}"
    using assms detect_modified_names [of eq "keys cur" cur prev]
    by (auto simp: modified_names_def detect_changes_def simp flip: set_map)
  show "\<forall>a \<in> set (added chg). map_of cur (item_name a) = Some (item_details a)"
    using assms detect_added_details [of "keys cur" cur prev] by (simp add: detect_changes_def)
  show "\<forall>r \<in> set (removed chg). map_of prev (item_name r) = Some (item_details r)"
    using assms detect_removed_details [of "keys prev" cur prev] by (simp add: detect_changes_def)
  show "\<forall>x \<in> set (modified chg).
           map_of prev (mod_name x) = Some (mod_previous x) \<and>
           map_of cur (mod_name x) = Some (mod_current x) \<and>
           (\<forall>k. mod_differences x k =
              (if k \<in> dom (mod_previous x) \<union> dom (mod_current x) \<and>
                  \<not> eq (dict_get (mod_previous x) k) (dict_get (mod_current x) k)
               then Some (dict_get (mod_previous x) k, dict_get (mod_current x) k) else None))"
    using assms detect_modified_details [of eq "keys cur" cur prev]
    by (simp add: detect_changes_def get_detailed_diff_key)
  show "added_names chg \<union> modified_names chg \<union> unchanged_names eq prev cur = set (keys cur)"
    unfolding a mo unchanged_names_def by auto
  show "added_names chg \<inter> modified_names chg = {}" unfolding a mo by auto
  show "added_names chg \<inter> unchanged_names eq prev cur = {}" unfolding a unchanged_names_def by auto
  show "modified_names chg \<inter> unchanged_names eq prev cur = {}" unfolding mo unchanged_names_def by auto
  show "added_names chg \<inter> removed_names chg = {}" unfolding a r by auto
  show "removed_names chg \<inter> modified_names chg = {}" unfolding r mo by auto
  show "removed_names chg \<subseteq> set (keys prev) - set (keys cur)" unfolding r by simp
qed

lemma detect_changes_none_ex:
  "detect_changes scalar_eq tracker_none_ex =
     \<lparr>added = [], removed = [],
      modified = [\<lparr>mod_name = ''calc-add'', mod_previous = [''title'' \<mapsto> PNone],
                   mod_current = Map.empty,
                   mod_differences = get_detailed_diff scalar_eq [''title'' \<mapsto> PNone] Map.empty\<rparr>]\<rparr>"
  by (simp add: detect_changes_def tracker_none_ex_def keys_def dict_equal_def)

lemma diff_none_ex: "get_detailed_diff scalar_eq [''title'' \<mapsto> PNone] Map.empty = Map.empty"
  by (rule ext) (simp add: get_detailed_diff_def dict_get_def scalar_eq_def Let_def)

text \<open>
  Claim C5, as stated, fails: the diff of a modified tool does not map every changed key.
  The keys are compared through \<open>.get\<close>, which gives \<open>None\<close> for a missing key, so a key that
  held \<open>None\<close> and is removed makes the descriptors differ and the tool modified, and yet it is
  not in the diff: here the diff of the modified tool is empty.
\<close>

theorem detect_changes_diff_counterexample:
  "map_of (previous_tools tracker_none_ex) ''calc-add'' = Some [''title'' \<mapsto> PNone] \<and>
   map_of (current_tools tracker_none_ex) ''calc-add'' = Some Map.empty \<and>
   modified_names (detect_changes scalar_eq tracker_none_ex) = {''calc-add''} \<and>
   map (\<lambda>x. mod_differences x ''title'') (modified (detect_changes scalar_eq tracker_none_ex)) = [None] \<and>
   map mod_differences (modified (detect_changes scalar_eq tracker_none_ex)) = [Map.empty]"
  by (simp add: detect_changes_none_ex diff_none_ex modified_names_def)
     (simp add: tracker_none_ex_def)

text \<open>
  Claim C5, amended. Whatever Python's \<open>==\<close> is on the values, for the snapshots \<open>previous\<close> and
  \<open>current\<close>, \<open>detect_changes\<close> reports as added the names in current and not in previous, as
  removed the names in previous and not in current, as modified the names in both whose
  descriptors are not equal, each item carrying the descriptors and, for the modified ones,
  the key-by-key diff: it maps exactly the keys of either descriptor whose values, \<open>None\<close>
  standing for a missing key, are not equal to the pair of old and new value, so that a key
  with the value \<open>None\<close> on one side and missing on the other is not in it. Added, modified and
  unchanged names cover the keys of current, removed names lie in previous and not in
  current, and the sets are pairwise disjoint.
\<close>

theorem detect_changes_diff:
  "let prev = previous_tools m; cur = current_tools m; chg = detect_changes eq m in
     added_names chg = set (keys cur) - set (keys prev) \<and>
     removed_names chg = set (keys prev) - set (keys cur) \<and>
     modified_names chg = {n \<in> set (keys cur) \<inter> set (keys prev). descriptors_differ eq cur prev n} \<and>
     (\<forall>a \<in> set (added chg). map_of cur (item_name a) = Some (item_details a)) \<and>
     (\<forall>r \<in> set (removed chg). map_of prev (item_name r) = Some (item_details r)) \<and>
     (\<forall>x \<in> set (modified chg).
        map_of prev (mod_name x) = Some (mod_previous x) \<and>
        map_of cur (mod_name x) = Some (mod_current x) \<and>
        (\<forall>k. mod_differences x k =
           (if k \<in> dom (mod_previous x) \<union> dom (mod_current x) \<and>
               \<not> eq (dict_get (mod_previous x) k) (dict_get (mod_current x) k)
            then Some (dict_get (mod_previous x) k, dict_get (mod_current x) k) else None))) \<and>
     added_names chg \<union> modified_names chg \<union> unchanged_names eq prev cur = set (keys cur) \<and>
     added_names chg \<inter> modified_names chg = {} \<and>
     added_names chg \<inter> unchanged_names eq prev cur = {} \<and>
     modified_names chg \<inter> unchanged_names eq prev cur = {} \<and>
     added_names chg \<inter> removed_names chg = {} \<and>
     removed_names chg \<inter> modified_names chg = {} \<and>
     removed_names chg \<subseteq> set (keys prev) - set (keys cur)"
  unfolding Let_def
  using detect_changes_facts [OF refl refl refl, of eq m] by (intro conjI) assumption+

lemma desc_add_changed: "\<not> dict_equal scalar_eq desc_add_v2 desc_add_v1"
  by (simp add: dict_equal_def desc_add_v1_def desc_add_v2_def dict_get_def scalar_eq_def)

lemma desc_flag_unchanged: "dict_equal scalar_eq desc_flag_v2 desc_flag_v1"
  by (simp add: dict_equal_def desc_flag_v1_def desc_flag_v2_def dict_get_def scalar_eq_def)

lemma detect_changes_ex:
  "detect_changes scalar_eq tracker_ex =
     \<lparr>added = [\<lparr>item_name = ''calc-mul'', item_details = desc_mul\<rparr>],
      removed = [\<lparr>item_name = ''calc-old'', item_details = desc_old\<rparr>],
      modified = [\<lparr>mod_name = ''calc-add'', mod_previous = desc_add_v1, mod_current = desc_add_v2,
                   mod_differences = get_detailed_diff scalar_eq desc_add_v1 desc_add_v2\<rparr>]\<rparr>"
  by (simp add: detect_changes_def tracker_ex_def keys_def desc_add_changed desc_flag_unchanged)

theorem detect_changes_diff_witness:
  "added_names (detect_changes scalar_eq tracker_ex) = {''calc-mul''} \<and>
   removed_names (detect_changes scalar_eq tracker_ex) = {''calc-old''} \<and>
   modified_names (detect_changes scalar_eq tracker_ex) = {''calc-add''} \<and>
   unchanged_names scalar_eq (previous_tools tracker_ex) (current_tools tracker_ex) = {''calc-flag''} \<and>
   map (\<lambda>x. mod_differences x ''description'') (modified (detect_changes scalar_eq tracker_ex)) =
     [Some (PStr ''Add'', PStr ''Add two numbers'')] \<and>
   map (\<lambda>x. mod_differences x ''name'') (modified (detect_changes scalar_eq tracker_ex)) = [None]"
proof -
  note inst = detect_changes_diff [of tracker_ex scalar_eq, unfolded Let_def]
  note rest = inst [THEN conjunct2, THEN conjunct2, THEN conjunct2, THEN conjunct2, THEN conjunct2]
  have names: "added_names (detect_changes scalar_eq tracker_ex) = {''calc-mul''}"
      "removed_names (detect_changes scalar_eq tracker_ex) = {''calc-old''}"
      "modified_names (detect_changes scalar_eq tracker_ex) = {''calc-add''}"
    by (simp_all add: detect_changes_ex added_names_def removed_names_def modified_names_def)
  have un: "unchanged_names scalar_eq (previous_tools tracker_ex) (current_tools tracker_ex) =
            {''calc-flag''}"
    by (auto simp: unchanged_names_def descriptors_differ_def tracker_ex_def keys_def
          desc_add_changed desc_flag_unchanged split: if_splits)
  have pc: "\<forall>x \<in> set (modified (detect_changes scalar_eq tracker_ex)).
          mod_previous x = desc_add_v1 \<and> mod_current x = desc_add_v2"
    by (simp add: detect_changes_ex)
  have "\<forall>x \<in> set (modified (detect_changes scalar_eq tracker_ex)).
        (\<forall>k. mod_differences x k =
           (if k \<in> dom (mod_previous x) \<union> dom (mod_current x) \<and>
               \<not> scalar_eq (dict_get (mod_previous x) k) (dict_get (mod_current x) k)
            then Some (dict_get (mod_previous x) k, dict_get (mod_current x) k) else None))"
    using rest [THEN conjunct1] by blast
  with pc have d: "\<forall>x \<in> set (modified (detect_changes scalar_eq tracker_ex)).
      mod_differences x ''description'' = Some (PStr ''Add'', PStr ''Add two numbers'') \<and>
      mod_differences x ''name'' = None"
    by (simp add: dict_get_def desc_add_v1_def desc_add_v2_def scalar_eq_def)
  have "map (\<lambda>x. mod_differences x ''description'') (modified (detect_changes scalar_eq tracker_ex)) =
     [Some (PStr ''Add'', PStr ''Add two numbers'')]"
    using d by (simp add: detect_changes_ex)
  moreover have "map (\<lambda>x. mod_differences x ''name'') (modified (detect_changes scalar_eq tracker_ex)) = [None]"
    using d by (simp add: detect_changes_ex)
  ultimately show ?thesis using names un by (intro conjI)
qed

lemma reachable_grow: "reachable eq (grow eq n)"
  by (induction n) (auto intro: reachable.intros)

lemma length_history_grow: "length (change_history (grow eq n)) = n"
  by (induction n)
     (simp_all add: init_change_manager_def update_tools_def detect_changes_def keys_def Let_def)

text \<open>
  Claim C3, as stated, fails: the change history has no bound. Every update that detects a
  change appends a record and nothing is ever dropped, so no number bounds the length of the
  history over the reachable states.
\<close>

theorem change_history_bound_counterexample:
  "\<forall>eq. \<not> (\<exists>B. \<forall>m. reachable eq m \<longrightarrow> length (change_history m) \<le> B)"
proof (intro allI notI)
  fix eq
  assume "\<exists>B. \<forall>m. reachable eq m \<longrightarrow> length (change_history m) \<le> B"
  then obtain B where "\<forall>m. reachable eq m \<longrightarrow> length (change_history m) \<le> B" ..
  then have "length (change_history (grow eq (Suc B))) \<le> B"
    using reachable_grow by blast
  then show False unfolding length_history_grow by simp
qed

lemma update_tools_history:
  "change_history (fst (update_tools eq now e n m)) =
     change_history m @
       (if nonempty_diff (snd (update_tools eq now e n m))
        then [\<lparr>timestamp = now, changes = snd (update_tools eq now e n m)\<rparr>] else [])"
  by (auto simp: update_tools_def Let_def nonempty_diff_def)

text \<open>
  Claim C3, amended. In every reachable state of the change tracker every recorded entry is
  a non-empty diff, and the history is an append-only log in order of arrival: an update
  appends its record at the end when its diff is non-empty and otherwise leaves the history
  as it is. Only the summary view is bounded: it shows the last two records.
\<close>

theorem change_history_log:
  assumes "reachable eq m"
  shows "(\<forall>r \<in> set (change_history m). nonempty_diff (changes r)) \<and>
         (\<forall>now e n. change_history (fst (update_tools eq now e n m)) =
            change_history m @
              (if nonempty_diff (snd (update_tools eq now e n m))
               then [\<lparr>timestamp = now, changes = snd (update_tools eq now e n m)\<rparr>] else [])) \<and>
         recent_changes (get_change_summary m) =
            drop (length (change_history m) - 2) (change_history m) \<and>
         length (recent_changes (get_change_summary m)) \<le> 2"
proof -
  have inv: "\<forall>r \<in> set (change_history m). nonempty_diff (changes r)"
    using assms
  proof (induction rule: reachable.induct)
    case reachable_init
    then show ?case by (simp add: init_change_manager_def)
  next
    case (reachable_update m now e n)
    then show ?case by (auto simp: update_tools_history)
  qed
  have "recent_changes (get_change_summary m) =
            drop (length (change_history m) - 2) (change_history m)"
    by (simp add: get_change_summary_def)
  moreover from this have "length (recent_changes (get_change_summary m)) \<le> 2" by simp
  ultimately show ?thesis using inv update_tools_history by blast
qed

theorem change_history_log_witness:
  "reachable scalar_eq (grow scalar_eq 3) \<and> length (change_history (grow scalar_eq 3)) = 3 \<and>
   list_all (\<lambda>r. nonempty_diff (changes r)) (change_history (grow scalar_eq 3)) \<and>
   length (recent_changes (get_change_summary (grow scalar_eq 3))) \<le> 2"
  using change_history_log [OF reachable_grow, of scalar_eq 3] reachable_grow [of scalar_eq 3]
    length_history_grow [of scalar_eq 3]
  unfolding list_all_iff by blast

section \<open>Execution worker\<close>

lemma huge_lower: "10 \<le> huge"
proof -
  have "(10::int) ^ 1 \<le> 10 ^ 4300" by (rule power_increasing) (simp, simp)
  then show ?thesis unfolding huge_def power_one_right .
qed

lemma execute_tool_returns:
  assumes "path_exists src" and "spec_found src" and "exec_module src = Returns m"
      and "mod_hasattr m function_name = Returns True"
      and "mod_getattr m function_name = Returns (Callable func)"
      and "func args kwargs = Returns result"
  shows "execute_tool lib src module_path function_name args kwargs =
           (case serialize_result lib result of
              Returns serialized_result \<Rightarrow>
                Returns [(''success'', PBool True), (''result'', serialized_result)]
            | Raises e \<Rightarrow>
                if is_Exception e
                then (case exc_str e of
                        Returns s \<Rightarrow>
                          Returns [(''success'', PBool False), (''error'', PStr s),
                                   (''traceback'', PStr (exc_traceback e))]
                      | Raises e2 \<Rightarrow> Raises e2)
                else Raises e)"
  using assms by (simp add: execute_tool_def execute_tool_body_def split: result.splits)

lemma execute_tool_raises:
  assumes "path_exists src" and "spec_found src" and "exec_module src = Returns m"
      and "mod_hasattr m function_name = Returns True"
      and "mod_getattr m function_name = Returns (Callable func)"
      and "func args kwargs = Raises e"
  shows "execute_tool lib src module_path function_name args kwargs =
           (if is_Exception e
            then (case exc_str e of
                    Returns s \<Rightarrow>
                      Returns [(''success'', PBool False), (''error'', PStr s),
                               (''traceback'', PStr (exc_traceback e))]
                  | Raises e2 \<Rightarrow> Raises e2)
            else Raises e)"
  using assms by (simp add: execute_tool_def execute_tool_body_def)

text \<open>
  Claim C7, as stated, fails in two ways. A function that raises \<open>SystemExit\<close> (as \<open>sys.exit\<close>
  does) is not caught by \<open>except Exception\<close>: the exception leaves \<open>execute_tool\<close> and no result
  dictionary is produced. And a function that is present, callable and returns does not
  always give \<open>{success: true, result}\<close>: for a returned integer of more than 4300 digits
  both \<open>json.dumps\<close> and \<open>str\<close> raise \<open>ValueError\<close>, and the run gives \<open>{success: false, error,
  traceback}\<close>.
\<close>

theorem execute_tool_uncaught_counterexample:
  "execute_tool worker_lib_ex calc_source ''tool.py'' ''quit'' [] [] = Raises sys_exit \<and>
   execute_tool worker_lib_ex calc_source ''tool.py'' ''big'' [] [] =
     Returns [(''success'', PBool False),
              (''error'', PStr (''Exceeds the limit (4300 digits) for integer string conversion; '' @
                                ''use sys.set_int_max_str_digits() to increase the limit'')),
              (''traceback'', PStr ''Traceback (most recent call last): ValueError'')]"
proof -
  have src: "path_exists calc_source" "spec_found calc_source"
      "exec_module calc_source = Returns calc_module"
    by (simp_all add: calc_source_def)
  have q: "mod_hasattr calc_module ''quit'' = Returns True"
      "mod_getattr calc_module ''quit'' = Returns (Callable (\<lambda>args kwargs. Raises sys_exit))"
    by (simp_all add: calc_module_def calc_attrs_def)
  have b: "mod_hasattr calc_module ''big'' = Returns True"
      "mod_getattr calc_module ''big'' = Returns (Callable (\<lambda>args kwargs. Returns (PInt huge)))"
    by (simp_all add: calc_module_def calc_attrs_def)
  have "execute_tool worker_lib_ex calc_source ''tool.py'' ''quit'' [] [] = Raises sys_exit"
    by (simp add: execute_tool_raises [OF src q refl] is_Exception_def sys_exit_def)
  moreover have "serialize_result worker_lib_ex (PInt huge) = Raises digits_error"
    by (simp add: serialize_result_def worker_lib_ex_def digits_error_def)
  then have "execute_tool worker_lib_ex calc_source ''tool.py'' ''big'' [] [] =
     Returns [(''success'', PBool False),
              (''error'', PStr (''Exceeds the limit (4300 digits) for integer string conversion; '' @
                                ''use sys.set_int_max_str_digits() to increase the limit'')),
              (''traceback'', PStr ''Traceback (most recent call last): ValueError'')]"
    by (simp add: execute_tool_returns [OF src b refl] is_Exception_def digits_error_def)
  ultimately show ?thesis by (intro conjI)
qed

text \<open>
  Claim C7, amended. With the module loaded: when \<open>hasattr\<close> finds no attribute of the
  given name and \<open>dir\<close> returns the names of the module, the result is \<open>{success: false}\<close> with
  the error text \<open>Function f not found in module. Available functions: [...]\<close> listing the
  names that do not start with \<open>_\<close>. When \<open>hasattr\<close> finds the attribute and it is callable, it is
  called with the positional and keyword arguments. A returned value gives
  \<open>{success: true, result}\<close> with the value itself when \<open>json.dumps\<close> returns for it, and with
  its string form when \<open>json.dumps\<close> raises \<open>TypeError\<close> or \<open>ValueError\<close> and \<open>str\<close> returns. An
  exception of the call, of \<open>str\<close> in that coercion, or another exception of \<open>json.dumps\<close>
  gives \<open>{success: false, error, traceback}\<close> when its class derives from \<open>Exception\<close> and its
  own \<open>str\<close> returns; an exception of the call whose class does not derive from \<open>Exception\<close>
  leaves \<open>execute_tool\<close> with no result.
\<close>

theorem execute_tool_results:
  assumes "path_exists src" and "spec_found src" and "exec_module src = Returns m"
  shows "(\<forall>names. mod_hasattr m function_name = Returns False \<and> mod_dir m = Returns names \<longrightarrow>
            execute_tool lib src module_path function_name args kwargs =
              Returns [(''success'', PBool False),
                       (''error'', PStr (''Function '' @ function_name @
                          '' not found in module. Available functions: '' @
                          repr_list lib (filter (\<lambda>name. \<not> startswith name ''_'') names)))]) \<and>
         (\<forall>func. mod_hasattr m function_name = Returns True \<and>
                 mod_getattr m function_name = Returns (Callable func) \<longrightarrow>
            (\<forall>result. func args kwargs = Returns result \<longrightarrow>
               (json_dumps lib result = Returns () \<longrightarrow>
                  execute_tool lib src module_path function_name args kwargs =
                    Returns [(''success'', PBool True), (''result'', result)]) \<and>
               (\<forall>e s. json_dumps lib result = Raises e \<and> exc_class e = TypeOrValueError \<and>
                       py_str lib result = Returns s \<longrightarrow>
                  execute_tool lib src module_path function_name args kwargs =
                    Returns [(''success'', PBool True), (''result'', PStr s)]) \<and>
               (\<forall>e e2 s. json_dumps lib result = Raises e \<and> exc_class e = TypeOrValueError \<and>
                          py_str lib result = Raises e2 \<and> is_Exception e2 \<and>
                          exc_str e2 = Returns s \<longrightarrow>
                  execute_tool lib src module_path function_name args kwargs =
                    Returns [(''success'', PBool False), (''error'', PStr s),
                             (''traceback'', PStr (exc_traceback e2))]) \<and>
               (\<forall>e s. json_dumps lib result = Raises e \<and> exc_class e = OtherException \<and>
                       exc_str e = Returns s \<longrightarrow>
                  execute_tool lib src module_path function_name args kwargs =
                    Returns [(''success'', PBool False), (''error'', PStr s),
                             (''traceback'', PStr (exc_traceback e))])) \<and>
            (\<forall>e s. func args kwargs = Raises e \<and> is_Exception e \<and> exc_str e = Returns s \<longrightarrow>
               execute_tool lib src module_path function_name args kwargs =
                 Returns [(''success'', PBool False), (''error'', PStr s),
                          (''traceback'', PStr (exc_traceback e))]) \<and>
            (\<forall>e. func args kwargs = Raises e \<and> \<not> is_Exception e \<longrightarrow>
               execute_tool lib src module_path function_name args kwargs = Raises e))"
proof -
  have absent: "execute_tool lib src module_path function_name args kwargs =
              Returns [(''success'', PBool False),
                       (''error'', PStr (''Function '' @ function_name @
                          '' not found in module. Available functions: '' @
                          repr_list lib (filter (\<lambda>name. \<not> startswith name ''_'') names)))]"
    if "mod_hasattr m function_name = Returns False" "mod_dir m = Returns names" for names
    using assms that by (simp add: execute_tool_def execute_tool_body_def Let_def)
  have through: "execute_tool lib src module_path function_name args kwargs =
                    Returns [(''success'', PBool True), (''result'', result)]"
    if "mod_hasattr m function_name = Returns True"
       "mod_getattr m function_name = Returns (Callable func)"
       "func args kwargs = Returns result" "json_dumps lib result = Returns ()"
    for func result
    using that(4) by (simp add: execute_tool_returns [OF assms that(1-3)] serialize_result_def)
  have coerced: "execute_tool lib src module_path function_name args kwargs =
                    Returns [(''success'', PBool True), (''result'', PStr s)]"
    if "mod_hasattr m function_name = Returns True"
       "mod_getattr m function_name = Returns (Callable func)"
       "func args kwargs = Returns result" "json_dumps lib result = Raises e"
       "exc_class e = TypeOrValueError" "py_str lib result = Returns s"
    for func result e s
    using that(4-6) by (simp add: execute_tool_returns [OF assms that(1-3)] serialize_result_def)
  have str_fails: "execute_tool lib src module_path function_name args kwargs =
                    Returns [(''success'', PBool False), (''error'', PStr s),
                             (''traceback'', PStr (exc_traceback e2))]"
    if "mod_hasattr m function_name = Returns True"
       "mod_getattr m function_name = Returns (Callable func)"
       "func args kwargs = Returns result" "json_dumps lib result = Raises e"
       "exc_class e = TypeOrValueError" "py_str lib result = Raises e2" "is_Exception e2"
       "exc_str e2 = Returns s"
    for func result e e2 s
    using that(4-8) by (simp add: execute_tool_returns [OF assms that(1-3)] serialize_result_def)
  have dumps_fails: "execute_tool lib src module_path function_name args kwargs =
                    Returns [(''success'', PBool False), (''error'', PStr s),
                             (''traceback'', PStr (exc_traceback e))]"
    if "mod_hasattr m function_name = Returns True"
       "mod_getattr m function_name = Returns (Callable func)"
       "func args kwargs = Returns result" "json_dumps lib result = Raises e"
       "exc_class e = OtherException" "exc_str e = Returns s"
    for func result e s
    using that(4-6)
    by (simp add: execute_tool_returns [OF assms that(1-3)] serialize_result_def is_Exception_def)
  have caught: "execute_tool lib src module_path function_name args kwargs =
                 Returns [(''success'', PBool False), (''error'', PStr s),
                          (''traceback'', PStr (exc_traceback e))]"
    if "mod_hasattr m function_name = Returns True"
       "mod_getattr m function_name = Returns (Callable func)"
       "func args kwargs = Raises e" "is_Exception e" "exc_str e = Returns s"
    for func e s
    using that(4-5) by (simp add: execute_tool_raises [OF assms that(1-3)])
  have uncaught: "execute_tool lib src module_path function_name args kwargs = Raises e"
    if "mod_hasattr m function_name = Returns True"
       "mod_getattr m function_name = Returns (Callable func)"
       "func args kwargs = Raises e" "\<not> is_Exception e"
    for func e
    using that(4) by (simp add: execute_tool_raises [OF assms that(1-3)])
  show ?thesis
    apply (intro conjI allI impI)
    subgoal by (elim conjE) (rule absent, assumption+)
    subgoal by (elim conjE) (rule through, assumption+)
    subgoal by (elim conjE) (rule coerced, assumption+)
    subgoal by (elim conjE) (rule str_fails, assumption+)
    subgoal by (elim conjE) (rule dumps_fails, assumption+)
    subgoal by (elim conjE) (rule caught, assumption+)
    subgoal by (elim conjE) (rule uncaught, assumption+)
    done
qed

theorem execute_tool_results_witness:
  "execute_tool worker_lib_ex calc_source ''tool.py'' ''add'' [PInt 2, PInt 3] [] =
     Returns [(''success'', PBool True), (''result'', PInt 5)] \<and>
   execute_tool worker_lib_ex calc_source ''tool.py'' ''handle'' [] [] =
     Returns [(''success'', PBool True), (''result'', PStr ''<object>'')] \<and>
   execute_tool worker_lib_ex calc_source ''tool.py'' ''add'' [] [] =
     Returns [(''success'', PBool False),
              (''error'', PStr ''add() missing 2 required positional arguments''),
              (''traceback'', PStr ''Traceback (most recent call last): TypeError'')] \<and>
   execute_tool worker_lib_ex calc_source ''tool.py'' ''mul'' [] [] =
     Returns [(''success'', PBool False),
              (''error'', PStr (''Function mul not found in module. Available functions: '' @
                                [CHR 0x5B, CHR 0x27] @ ''add'' @ [CHR 0x27] @ '', '' @
                                [CHR 0x27] @ ''big'' @ [CHR 0x27] @ '', '' @
                                [CHR 0x27] @ ''handle'' @ [CHR 0x27] @ '', '' @
                                [CHR 0x27] @ ''quit'' @ [CHR 0x27, CHR 0x5D]))]"
proof -
  have src: "path_exists calc_source" "spec_found calc_source"
      "exec_module calc_source = Returns calc_module"
    by (simp_all add: calc_source_def)
  note inst = execute_tool_results [OF src]
  have five: "PInt 5 \<noteq> PInt huge" using huge_lower by auto
  have "execute_tool worker_lib_ex calc_source ''tool.py'' ''add'' [PInt 2, PInt 3] [] =
     Returns [(''success'', PBool True), (''result'', PInt 5)]"
    using inst [of "''add''" worker_lib_ex "''tool.py''" "[PInt 2, PInt 3]" "[]"] five
    by (simp add: calc_module_def calc_attrs_def worker_lib_ex_def)
  moreover have "execute_tool worker_lib_ex calc_source ''tool.py'' ''handle'' [] [] =
     Returns [(''success'', PBool True), (''result'', PStr ''<object>'')]"
    using inst [of "''handle''" worker_lib_ex "''tool.py''" "[]" "[]"]
    by (simp add: calc_module_def calc_attrs_def worker_lib_ex_def not_serializable_def)
  moreover have "execute_tool worker_lib_ex calc_source ''tool.py'' ''add'' [] [] =
     Returns [(''success'', PBool False),
              (''error'', PStr ''add() missing 2 required positional arguments''),
              (''traceback'', PStr ''Traceback (most recent call last): TypeError'')]"
    using inst [of "''add''" worker_lib_ex "''tool.py''" "[]" "[]"]
    by (simp add: calc_module_def calc_attrs_def type_error_def is_Exception_def)
  moreover have "execute_tool worker_lib_ex calc_source ''tool.py'' ''mul'' [] [] =
     Returns [(''success'', PBool False),
              (''error'', PStr (''Function mul not found in module. Available functions: '' @
                                [CHR 0x5B, CHR 0x27] @ ''add'' @ [CHR 0x27] @ '', '' @
                                [CHR 0x27] @ ''big'' @ [CHR 0x27] @ '', '' @
                                [CHR 0x27] @ ''handle'' @ [CHR 0x27] @ '', '' @
                                [CHR 0x27] @ ''quit'' @ [CHR 0x27, CHR 0x5D]))]"
    using inst [of "''mul''" worker_lib_ex "''tool.py''" "[]" "[]"]
    by (simp add: calc_module_def calc_attrs_def worker_lib_ex_def keys_def repr_names_def
          startswith_def)
  ultimately show ?thesis by (intro conjI)
qed

section \<open>Tool proxy\<close>

text \<open>
  Claim C8. For a proxy call whose worker was started (the parameters are JSON-serializable)
  and completed: when stdout parses as a JSON object
  with \<open>success\<close> true, the call returns the object's \<open>result\<close> field; when \<open>success\<close> is false,
  it raises \<open>RuntimeError\<close> with the text \<open>Tool execution error:\<close> followed by the worker's
  error text, a newline and the traceback; when stdout is not valid JSON, the call returns
  the stdout text itself.
\<close>

theorem proxy_call_results:
  assumes "json_serializable (proxy_function_name self)"
      and "json_serializable (PList args)" and "json_serializable (PDict kwargs)"
  shows "(json_loads stdout = None \<longrightarrow>
      proxy_call json_loads str_of self script_path True args kwargs (Completed stdout) =
        Inr (PStr stdout)) \<and>
   (\<forall>output. json_loads stdout = Some (PDict output) \<longrightarrow>
      (\<forall>r. map_of output ''success'' = Some (PBool True) \<and> map_of output ''result'' = Some r \<longrightarrow>
         proxy_call json_loads str_of self script_path True args kwargs (Completed stdout) = Inr r) \<and>
      (map_of output ''success'' = Some (PBool False) \<longrightarrow>
         proxy_call json_loads str_of self script_path True args kwargs (Completed stdout) =
           Inl (RuntimeError (''Tool execution error: '' @
                  format_value str_of (alist_get output ''error'' (PStr [])) @ [CHR 0x0A] @
                  format_value str_of (alist_get output ''traceback'' (PStr []))))) \<and>
      (\<forall>err tb. map_of output ''success'' = Some (PBool False) \<and>
          map_of output ''error'' = Some (PStr err) \<and> map_of output ''traceback'' = Some (PStr tb) \<longrightarrow>
         proxy_call json_loads str_of self script_path True args kwargs (Completed stdout) =
           Inl (RuntimeError (''Tool execution error: '' @ err @ [CHR 0x0A] @ tb))))"
proof -
  have enc: "json_serializable
               (PDict [(''module_path'', PStr ''tool.py''),
                       (''function_name'', proxy_function_name self),
                       (''args'', PList args), (''kwargs'', PDict kwargs)])"
    using assms by simp
  show ?thesis
    by (simp add: proxy_call_def enc truthy_def alist_get_def format_value_def
          del: json_serializable.simps)
qed

theorem proxy_call_results_witness:
  "proxy_call loads_ex (\<lambda>v. ''<object>'') proxy_ex ''tool_execution_script.py'' True
      [PInt 2, PInt 3] [] (Completed ''{success: true, result: 5}'') = Inr (PInt 5) \<and>
   proxy_call loads_ex (\<lambda>v. ''<object>'') proxy_ex ''tool_execution_script.py'' True
      [PInt 2, PInt 3] [] (Completed ''{success: false, error: boom, traceback: tb}'') =
        Inl (RuntimeError (''Tool execution error: boom'' @ [CHR 0x0A] @ ''tb'')) \<and>
   proxy_call loads_ex (\<lambda>v. ''<object>'') proxy_ex ''tool_execution_script.py'' True
      [PInt 2, PInt 3] [] (Completed ''Traceback: no module'') = Inr (PStr ''Traceback: no module'')"
proof -
  have s: "json_serializable (proxy_function_name proxy_ex)"
      "json_serializable (PList [PInt 2, PInt 3])" "json_serializable (PDict [])"
    by (simp_all add: proxy_ex_def)
  note inst = proxy_call_results [OF s]
  have "proxy_call loads_ex (\<lambda>v. ''<object>'') proxy_ex ''tool_execution_script.py'' True
      [PInt 2, PInt 3] [] (Completed ''{success: true, result: 5}'') = Inr (PInt 5)"
    using inst [of loads_ex "''{success: true, result: 5}''" "\<lambda>v. ''<object>''"
        "''tool_execution_script.py''"]
    by (simp add: loads_ex_def)
  moreover have "proxy_call loads_ex (\<lambda>v. ''<object>'') proxy_ex ''tool_execution_script.py'' True
      [PInt 2, PInt 3] [] (Completed ''{success: false, error: boom, traceback: tb}'') =
        Inl (RuntimeError (''Tool execution error: boom'' @ [CHR 0x0A] @ ''tb''))"
    using inst [of loads_ex "''{success: false, error: boom, traceback: tb}''"
        "\<lambda>v. ''<object>''" "''tool_execution_script.py''"]
    by (simp add: loads_ex_def alist_get_def format_value_def)
  moreover have "proxy_call loads_ex (\<lambda>v. ''<object>'') proxy_ex ''tool_execution_script.py'' True
      [PInt 2, PInt 3] [] (Completed ''Traceback: no module'') = Inr (PStr ''Traceback: no module'')"
    using inst [of loads_ex "''Traceback: no module''" "\<lambda>v. ''<object>''"
        "''tool_execution_script.py''"]
    by (simp add: loads_ex_def)
  ultimately show ?thesis by blast
qed

section \<open>Reconciliation\<close>

lemma keys_update:
  "keys (AList.update k v xs) = (if k \<in> set (keys xs) then keys xs else keys xs @ [k])"
  by (simp add: keys_def update_keys)

lemma keys_delete: "keys (AList.delete k xs) = filter (\<lambda>x. x \<noteq> k) (keys xs)"
  by (induction xs) (auto simp: keys_def)

lemma split_on_nonempty: "split_on c s \<noteq> []"
  by (induction s) (auto split: list.splits)

lemma split_first_takeWhile: "split_first c s = takeWhile (\<lambda>x. x \<noteq> c) s"
proof (induction s)
  case Nil
  then show ?case by (simp add: split_first_def)
next
  case (Cons x xs)
  then show ?case
    using split_on_nonempty [of c xs]
    by (cases "split_on c xs") (auto simp: split_first_def)
qed

lemma startswith_append: "startswith s p \<longleftrightarrow> (\<exists>r. s = p @ r)"
  unfolding startswith_def
  by (metis append_eq_conv_conj append_take_drop_id)

lemma dotted_prefix_differs:
  assumes "startswith n (split_first CHR ''-'' r @ ''.'')"
  shows "split_first CHR ''-'' n \<noteq> split_first CHR ''-'' r"
proof -
  let ?d = "takeWhile (\<lambda>x. x \<noteq> CHR ''-'') r"
  from assms obtain rest where n: "n = ?d @ ''.'' @ rest"
    unfolding startswith_append split_first_takeWhile by auto
  have "\<forall>x \<in> set ?d. x \<noteq> CHR ''-''"
    by (auto dest: set_takeWhileD)
  then have "takeWhile (\<lambda>x. x \<noteq> CHR ''-'') n = ?d @ takeWhile (\<lambda>x. x \<noteq> CHR ''-'') (''.'' @ rest)"
    unfolding n by (simp add: takeWhile_append2)
  then have "length (takeWhile (\<lambda>x. x \<noteq> CHR ''-'') n) > length ?d" by simp
  then show ?thesis unfolding split_first_takeWhile by auto
qed

lemma keys_remove_absent:
  "keys (remove_absent ks loaded rtd reg) =
     filter (\<lambda>n. \<not> removal_applies ks loaded rtd n) (keys reg)"
proof (induction ks arbitrary: reg)
  case Nil
  then show ?case by (simp add: removal_applies_def)
next
  case (Cons k ks)
  show ?case
  proof (cases "removal_applies [k] loaded rtd k")
    case True
    then have "remove_absent (k # ks) loaded rtd reg =
        remove_absent ks loaded rtd (remove_tool k reg)"
      by (auto simp: removal_applies_def split: option.splits)
    then show ?thesis
      using True
      by (auto simp: Cons.IH remove_tool_def keys_delete removal_applies_def
            split: option.splits intro!: filter_cong)
  next
    case False
    then have "remove_absent (k # ks) loaded rtd reg = remove_absent ks loaded rtd reg"
      by (auto simp: removal_applies_def split: option.splits)
    then show ?thesis
      using False
      by (auto simp: Cons.IH removal_applies_def split: option.splits intro!: filter_cong)
  qed
qed

text \<open>
  A name that the removal loop deletes under a scope starts with the scope followed by a
  dot, so its plugin prefix (the text before the first \<open>-\<close>) is never the scope.
\<close>

lemma scoped_removal_spares_scope:
  assumes "removal_applies existing loaded (Some (split_first CHR ''-'' r)) n"
  shows "split_first CHR ''-'' n \<noteq> split_first CHR ''-'' r"
  using assms dotted_prefix_differs by (simp add: removal_applies_def)

lemma reg_one_ex:
  "register_one lib_ex (hd loaded_ex) (heap_ex, registry_ex, []) = (h, r, d) \<Longrightarrow>
     keys r = [''calc-add'', ''calc-mul''] \<and> keys d = [''calc-mul'']"
  by (auto simp: register_one_def lib_ex_def loaded_ex_def heap_ex_def registry_ex_def keys_def
        add_tool_def data_mul_def Let_def split: option.splits)

text \<open>
  Claim C1 says that reconciliation removes from the registry every registered qualified
  name that was not loaded (under a scope: those whose plugin prefix is the scope). The
  code does not: with \<open>calc-add\<close> registered and only \<open>calc-mul\<close> loaded, \<open>calc-add\<close> is still
  registered after \<open>register_tools_to_mcp\<close>, both without a scope and with the scope taken
  from \<open>calc-mul\<close>. The loop compares the name with the directory followed by a dot, while
  qualified names are built with \<open>-\<close>.
\<close>

theorem stale_tool_survives_reconcile:
  "\<forall>eq. keys (fst (snd (fst (after_reconcile eq None)))) = [''calc-add'', ''calc-mul''] \<and>
        keys (fst (snd (fst (after_reconcile eq (Some ''calc-mul''))))) = [''calc-add'', ''calc-mul'']"
proof (rule allI)
  fix eq
  obtain h r d where ro: "register_one lib_ex (hd loaded_ex) (heap_ex, registry_ex, []) = (h, r, d)"
    by (cases "register_one lib_ex (hd loaded_ex) (heap_ex, registry_ex, [])") auto
  from reg_one_ex [OF ro] have k: "keys r = [''calc-add'', ''calc-mul'']" by simp
  have rl: "register_loop lib_ex loaded_ex (heap_ex, registry_ex, []) = (h, r, d)"
    using ro by (simp add: loaded_ex_def)
  have ex: "keys (map (\<lambda>(k, v). (k, dump_without_fn lib_ex v))
                  (filter (\<lambda>(k, v). CHR ''-'' \<in> set k) registry_ex)) = [''calc-add'']"
    by (simp add: registry_ex_def keys_def)
  have ra: "remove_absent [''calc-add''] (keys loaded_ex) (Some scope) r = r"
    if "\<not> startswith ''calc-add'' (scope @ ''.'')" for scope
    using that by (simp add: loaded_ex_def keys_def)
  have s1: "\<not> startswith ''calc-add'' (''tools'' @ ''.'')" by (simp add: startswith_def)
  have s2: "\<not> startswith ''calc-add'' (split_first CHR ''-'' ''calc-mul'' @ ''.'')"
    by (simp add: startswith_def split_first_def)
  show "keys (fst (snd (fst (after_reconcile eq None)))) = [''calc-add'', ''calc-mul''] \<and>
        keys (fst (snd (fst (after_reconcile eq (Some ''calc-mul''))))) = [''calc-add'', ''calc-mul'']"
    unfolding after_reconcile_def register_tools_to_mcp_def
    using s1 s2 by (simp add: rl ex ra k Let_def split: prod.splits)
qed

lemma register_one_lib_ex:
  assumes "register_one lib_ex (n, info) (h, reg, nd) = (h', reg', nd')"
      and "cells h (info_tool_data info) ''name'' = Some (PStr n)"
  shows "keys reg' = filter (\<lambda>x. x \<noteq> n) (keys reg) @ [n]"
    and "keys nd' = (if n \<in> set (keys nd) then keys nd else keys nd @ [n])"
    and "cells h' a ''name'' = cells h a ''name''"
proof -
  have v: "model_validate lib_ex d = Some d" for d by (simp add: lib_ex_def)
  have key: "tool_key lib_ex d = n" if "d ''name'' = Some (PStr n)" for d
    using that by (simp add: lib_ex_def)
  let ?td = "(cells h (info_tool_data info))(''fn'' \<mapsto> PBoundCall (info_proxy info))"
  let ?ft = "?td |` (- {''source_module'', ''function_name'', ''tool_name_prefix''})"
  have nm: "?ft ''name'' = Some (PStr n)" using assms(2) by simp
  have kft: "tool_key lib_ex ?ft = n" using nm by (rule key)
  have r: "reg' = add_tool lib_ex ?ft (if n \<in> set (keys reg) then remove_tool n reg else reg)"
    and d: "nd' = AList.update n (dump_without_fn lib_ex ?ft) nd"
    and h: "h' = h\<lparr>cells := (cells h)(info_tool_data info := ?td)\<rparr>"
    using assms(1) by (simp_all add: register_one_def v Let_def)
  show "keys reg' = filter (\<lambda>x. x \<noteq> n) (keys reg) @ [n]"
  proof -
    have "n \<notin> set xs \<Longrightarrow> filter (\<lambda>x. x \<noteq> n) xs = xs" for xs :: "string list"
      by (induction xs) auto
    then show ?thesis
      unfolding r add_tool_def kft
      by (auto simp: keys_update remove_tool_def keys_delete)
  qed
  show "keys nd' = (if n \<in> set (keys nd) then keys nd else keys nd @ [n])"
    unfolding d by (simp add: keys_update)
  show "cells h' a ''name'' = cells h a ''name''"
    unfolding h by simp
qed

lemma keys_existing_desc:
  "keys (map (\<lambda>(k, v). (k, dump_without_fn lib v)) (filter (\<lambda>(k, v). CHR ''-'' \<in> set k) reg)) =
     filter (\<lambda>k. CHR ''-'' \<in> set k) (keys reg)"
  by (induction reg) (auto simp: keys_def)

lemma reconcile_single_lib_ex:
  assumes "register_tools_to_mcp lib_ex eq dn now (h, reg, cm) [(n, info)] req = ((h', reg', cm'), chg)"
      and "cells h (info_tool_data info) ''name'' = Some (PStr n)"
  shows "keys reg' =
           filter (\<lambda>x. \<not> removal_applies (filter (\<lambda>k. CHR ''-'' \<in> set k) (keys reg)) [n]
                          (Some (case req of Some r \<Rightarrow> split_first CHR ''-'' r | None \<Rightarrow> dn)) x)
                  (filter (\<lambda>x. x \<noteq> n) (keys reg) @ [n])"
    and "map item_name (removed chg) =
           filter (\<lambda>x. x \<noteq> n) (filter (\<lambda>k. CHR ''-'' \<in> set k) (keys reg))"
    and "cells h' a ''name'' = cells h a ''name''"
proof -
  obtain h1 r1 d1 where ro: "register_one lib_ex (n, info) (h, reg, []) = (h1, r1, d1)"
    by (cases "register_one lib_ex (n, info) (h, reg, [])") auto
  note one = register_one_lib_ex [OF ro assms(2)]
  let ?ex = "map (\<lambda>(k, v). (k, dump_without_fn lib_ex v)) (filter (\<lambda>(k, v). CHR ''-'' \<in> set k) reg)"
  let ?rtd = "Some (case req of Some r \<Rightarrow> split_first CHR ''-'' r | None \<Rightarrow> dn)"
  have rtd: "(case req of Some r \<Rightarrow> Some (split_first CHR ''-'' r) | None \<Rightarrow> Some dn) = ?rtd"
    by (cases req) auto
  have all: "h' = h1" "reg' = remove_absent (keys ?ex) [n] ?rtd r1"
      "chg = snd (update_tools eq now ?ex d1 cm)"
    using assms(1)
    by (auto simp: register_tools_to_mcp_def ro rtd keys_def Let_def split: prod.splits)
  show "keys reg' =
           filter (\<lambda>x. \<not> removal_applies (filter (\<lambda>k. CHR ''-'' \<in> set k) (keys reg)) [n] ?rtd x)
                  (filter (\<lambda>x. x \<noteq> n) (keys reg) @ [n])"
    unfolding all keys_remove_absent keys_existing_desc one(1) ..
  have kd1: "keys d1 = [n]" using one(2) by (simp add: keys_def)
  have "removed chg = detect_removed (keys ?ex) d1 ?ex"
    unfolding all by (simp add: update_tools_def detect_changes_def Let_def)
  then show "map item_name (removed chg) =
           filter (\<lambda>x. x \<noteq> n) (filter (\<lambda>k. CHR ''-'' \<in> set k) (keys reg))"
    by (auto simp: detect_removed_names keys_existing_desc kd1 intro!: filter_cong)
  show "cells h' a ''name'' = cells h a ''name''"
    unfolding all using one(3) .
qed

text \<open>
  Claim C6 says that a second reconciliation with the same loaded set leaves the registry
  as it is and detects an empty diff. On the same input the registry is indeed the same
  after the second run, but the second diff is not empty: the stale \<open>calc-add\<close>, which the
  first run failed to remove, is reported as removed again.
\<close>

theorem second_reconcile_diff_not_empty:
  "\<forall>eq. map item_name (removed (snd (twice_reconcile eq))) = [''calc-add''] \<and>
        keys (fst (snd (fst (twice_reconcile eq)))) = keys (fst (snd (fst (after_reconcile eq None))))"
proof (rule allI)
  fix eq
  obtain h1 r1 cm1 c1 where first: "after_reconcile eq None = ((h1, r1, cm1), c1)"
    by (cases "after_reconcile eq None") auto
  have nm0: "cells heap_ex (info_tool_data (snd (hd loaded_ex))) ''name'' = Some (PStr ''calc-mul'')"
    by (simp add: heap_ex_def loaded_ex_def data_mul_def)
  have le: "loaded_ex = [(''calc-mul'', snd (hd loaded_ex))]" by (simp add: loaded_ex_def)
  have first': "register_tools_to_mcp lib_ex eq ''tools'' ''t1'' (heap_ex, registry_ex, init_change_manager)
      [(''calc-mul'', snd (hd loaded_ex))] None = ((h1, r1, cm1), c1)"
    using first le unfolding after_reconcile_def by simp
  note f = reconcile_single_lib_ex [OF first' nm0]
  have k1: "keys r1 = [''calc-add'', ''calc-mul'']"
    unfolding f(1) by (simp add: registry_ex_def keys_def removal_applies_def startswith_def)
  have nm1: "cells h1 (info_tool_data (snd (hd loaded_ex))) ''name'' = Some (PStr ''calc-mul'')"
    unfolding f(3) by (rule nm0)
  obtain h2 r2 cm2 c2 where second: "twice_reconcile eq = ((h2, r2, cm2), c2)"
    by (cases "twice_reconcile eq") auto
  have second': "register_tools_to_mcp lib_ex eq ''tools'' ''t2'' (h1, r1, cm1)
      [(''calc-mul'', snd (hd loaded_ex))] None = ((h2, r2, cm2), c2)"
    using second le first unfolding twice_reconcile_def by simp
  note s = reconcile_single_lib_ex [OF second' nm1]
  have "map item_name (removed c2) = [''calc-add'']"
    unfolding s(2) k1 by simp
  moreover have "keys r2 = [''calc-add'', ''calc-mul'']"
    unfolding s(1) k1 by (simp add: removal_applies_def startswith_def)
  ultimately show "map item_name (removed (snd (twice_reconcile eq))) = [''calc-add''] \<and>
        keys (fst (snd (fst (twice_reconcile eq)))) = keys (fst (snd (fst (after_reconcile eq None))))"
    by (simp add: second first k1)
qed

section \<open>Descriptors shared between the cache and the registration\<close>

lemma set_update_subset: "set (AList.update k v xs) \<subseteq> insert (k, v) (set xs)"
  by (induction xs) auto

lemma add_tools_values:
  "add_tools h as acc = Some acc' \<Longrightarrow> snd ` set acc' \<subseteq> snd ` set acc \<union> set as"
proof (induction as arbitrary: acc)
  case Nil
  then show ?case by simp
next
  case (Cons a as)
  from Cons.prems obtain n where n: "cells h a ''name'' = Some n" "hashable n"
      and rest: "add_tools h as (AList.update n a acc) = Some acc'"
    by (auto split: option.splits if_splits)
  have "snd ` set (AList.update n a acc) \<subseteq> insert a (snd ` set acc)"
    using set_update_subset [of n a acc] by force
  with Cons.IH [OF rest] show ?case by auto
qed

lemma cached_in_mono: "cached_in cache P a \<Longrightarrow> P \<subseteq> Q \<Longrightarrow> cached_in cache Q a"
  by (auto simp: cached_in_def)

lemma cached_in_update_other:
  "cached_in cache P a \<Longrightarrow> name \<notin> P \<Longrightarrow> cached_in (AList.update name e cache) P a"
  by (auto simp: cached_in_def update_conv')

lemma load_dir_inv:
  assumes step: "load_dir env now req (h, cache, acc) d = Some (h', cache', acc')"
      and inv: "\<forall>a \<in> snd ` set (all_tools acc). cached_in cache P a"
      and fresh: "entry_name d \<notin> P"
  shows "\<forall>a \<in> snd ` set (all_tools acc'). cached_in cache' (insert (entry_name d) P) a"
proof (cases "req \<noteq> None \<and> req \<noteq> Some (entry_name d)")
  case True
  with step have "cache' = cache" "acc' = acc" by (auto simp: load_dir_def)
  with inv show ?thesis by (auto intro: cached_in_mono)
next
  case nskip: False
  show ?thesis
  proof (cases "is_tool_cache_valid cache d")
    case True
    with step nskip obtain e all' where e: "map_of cache (entry_name d) = Some e"
        and at: "add_tools h (tools e) (all_tools acc) = Some all'"
        and res: "cache' = cache" "all_tools acc' = all'"
      by (auto simp: load_dir_def split: option.splits)
    have "cached_in cache (insert (entry_name d) P) a" if "a \<in> set (tools e)" for a
      using that e by (auto simp: cached_in_def)
    then have new: "\<forall>a \<in> set (tools e). cached_in cache' (insert (entry_name d) P) a"
      by (simp add: res)
    have old: "\<forall>a \<in> snd ` set (all_tools acc). cached_in cache' (insert (entry_name d) P) a"
      using inv cached_in_mono [of cache P _ "insert (entry_name d) P"] by (auto simp: res)
    have "snd ` set (all_tools acc') \<subseteq> snd ` set (all_tools acc) \<union> set (tools e)"
      using add_tools_values [OF at] by (simp add: res)
    with new old show ?thesis by blast
  next
    case False
    show ?thesis
    proof (cases "env d")
      case (LoadError msg)
      with step nskip False have "cache' = cache" "all_tools acc' = all_tools acc"
        by (auto simp: load_dir_def)
      with inv show ?thesis by (auto intro: cached_in_mono)
    next
      case LoadNeither
      with step nskip False have "cache' = cache" "all_tools acc' = all_tools acc"
        by (auto simp: load_dir_def)
      with inv show ?thesis by (auto intro: cached_in_mono)
    next
      case (LoadTools ds)
      obtain h1 as where al: "alloc_all h ds = (h1, as)" by (cases "alloc_all h ds") auto
      with step nskip False LoadTools obtain all' where
          at: "add_tools h1 as (all_tools acc) = Some all'"
          and res: "cache' = update_tool_cache now cache d as" "all_tools acc' = all'"
        by (auto simp: load_dir_def split: option.splits)
      have new: "cached_in cache' (insert (entry_name d) P) a" if "a \<in> set as" for a
        using that unfolding res update_tool_cache_def cached_in_def
        by (auto simp: update_conv')
      have old: "cached_in cache' (insert (entry_name d) P) a" if "cached_in cache P a" for a
        unfolding res update_tool_cache_def
        using cached_in_update_other [OF that fresh] by (auto intro: cached_in_mono)
      have sub: "snd ` set (all_tools acc') \<subseteq> snd ` set (all_tools acc) \<union> set as"
        using add_tools_values [OF at] by (simp add: res)
      from sub inv new old show ?thesis by blast
    qed
  qed
qed

lemma load_dirs_inv:
  assumes "load_dirs env now req st ds = Some st'"
      and "\<forall>a \<in> snd ` set (all_tools (snd (snd st))). cached_in (fst (snd st)) P a"
      and "distinct (map entry_name ds)" and "set (map entry_name ds) \<inter> P = {}"
  shows "\<forall>a \<in> snd ` set (all_tools (snd (snd st'))).
           cached_in (fst (snd st')) (P \<union> set (map entry_name ds)) a"
  using assms
proof (induction ds arbitrary: st P)
  case Nil
  then show ?case by simp
next
  case (Cons d ds)
  obtain h cache acc where st: "st = (h, cache, acc)" by (cases st) auto
  from Cons.prems(1) obtain st1 where s1: "load_dir env now req (h, cache, acc) d = Some st1"
      and rest: "load_dirs env now req st1 ds = Some st'"
    unfolding st by (auto split: option.splits)
  obtain h1 cache1 acc1 where st1: "st1 = (h1, cache1, acc1)" by (cases st1) auto
  have fresh: "entry_name d \<notin> P" using Cons.prems(4) by auto
  have inv1: "\<forall>a \<in> snd ` set (all_tools (snd (snd st1))).
      cached_in (fst (snd st1)) (insert (entry_name d) P) a"
    using load_dir_inv [OF s1 [unfolded st1] _ fresh] Cons.prems(2) unfolding st st1 by simp
  have "\<forall>a \<in> snd ` set (all_tools (snd (snd st'))).
           cached_in (fst (snd st')) (insert (entry_name d) P \<union> set (map entry_name ds)) a"
    using Cons.IH [OF rest inv1] Cons.prems(3,4) by auto
  then show ?case by simp
qed

lemma load_all_tools_cached:
  assumes "load_all_tools env now listing req (h0, cache0) = Some (h1, cache1, res)"
      and "distinct (map entry_name (get_tool_directories listing))"
      and "a \<in> snd ` set (all_tools res)"
  shows "\<exists>plugin e. map_of cache1 plugin = Some e \<and> a \<in> set (tools e)"
proof -
  have "\<forall>a \<in> snd ` set (all_tools (snd (snd (h1, cache1, res)))).
           cached_in (fst (snd (h1, cache1, res))) ({} \<union> set (map entry_name (get_tool_directories listing))) a"
    by (rule load_dirs_inv [OF assms(1) [unfolded load_all_tools_def prod.case]])
       (use assms(2) in simp_all)
  then have "\<forall>a \<in> snd ` set (all_tools res).
      cached_in cache1 (set (map entry_name (get_tool_directories listing))) a"
    by simp
  with assms(3) have "cached_in cache1 (set (map entry_name (get_tool_directories listing))) a"
    by blast
  then show ?thesis unfolding cached_in_def by blast
qed

lemma register_one_cells:
  assumes "register_one lib (n, info) (h, reg, nd) = (h', reg', nd')"
  shows "cells h' = (cells h)(info_tool_data info :=
           (cells h (info_tool_data info))(''fn'' \<mapsto> PBoundCall (info_proxy info)))"
  using assms by (auto simp: register_one_def Let_def split: option.splits)

lemma register_loop_other_keys:
  assumes "register_loop lib loaded (h, reg, nd) = (h', reg', nd')" and "k \<noteq> ''fn''"
  shows "cells h' a k = cells h a k"
  using assms
proof (induction loaded arbitrary: h reg nd)
  case Nil
  then show ?case by simp
next
  case (Cons item loaded)
  obtain n info where item: "item = (n, info)" by (cases item) auto
  obtain h1 r1 d1 where one: "register_one lib (n, info) (h, reg, nd) = (h1, r1, d1)"
    by (cases "register_one lib (n, info) (h, reg, nd)") auto
  from Cons.prems(1) have "register_loop lib loaded (h1, r1, d1) = (h', reg', nd')"
    by (simp add: item one)
  from Cons.IH [OF this Cons.prems(2)] have "cells h' a k = cells h1 a k" .
  also have "\<dots> = cells h a k"
    using Cons.prems(2) by (simp add: register_one_cells [OF one])
  finally show ?case .
qed

lemma register_loop_fn_kept:
  assumes "register_loop lib loaded (h, reg, nd) = (h', reg', nd')"
      and "cells h a ''fn'' = Some (PBoundCall p)" and "proxy_tool_data p = a"
      and "\<forall>(n, info) \<in> set loaded. proxy_tool_data (info_proxy info) = info_tool_data info"
  shows "\<exists>q. cells h' a ''fn'' = Some (PBoundCall q) \<and> proxy_tool_data q = a"
  using assms
proof (induction loaded arbitrary: h reg nd p)
  case Nil
  then show ?case by auto
next
  case (Cons item loaded)
  obtain n info where item: "item = (n, info)" by (cases item) auto
  obtain h1 r1 d1 where one: "register_one lib (n, info) (h, reg, nd) = (h1, r1, d1)"
    by (cases "register_one lib (n, info) (h, reg, nd)") auto
  from Cons.prems(1) have rest: "register_loop lib loaded (h1, r1, d1) = (h', reg', nd')"
    by (simp add: item one)
  have ok: "proxy_tool_data (info_proxy info) = info_tool_data info"
    using Cons.prems(4) by (simp add: item)
  have "\<exists>q. cells h1 a ''fn'' = Some (PBoundCall q) \<and> proxy_tool_data q = a"
    using Cons.prems(2,3) ok by (auto simp: register_one_cells [OF one])
  then obtain q where q: "cells h1 a ''fn'' = Some (PBoundCall q)" "proxy_tool_data q = a" by blast
  show ?case
    by (rule Cons.IH [OF rest q]) (use Cons.prems(4) in simp)
qed

lemma register_loop_fn_written:
  assumes "register_loop lib loaded (h, reg, nd) = (h', reg', nd')"
      and "(n, info) \<in> set loaded"
      and "\<forall>(n, info) \<in> set loaded. proxy_tool_data (info_proxy info) = info_tool_data info"
  shows "\<exists>q. cells h' (info_tool_data info) ''fn'' = Some (PBoundCall q) \<and>
             proxy_tool_data q = info_tool_data info"
  using assms
proof (induction loaded arbitrary: h reg nd)
  case Nil
  then show ?case by simp
next
  case (Cons item loaded)
  obtain m info1 where item: "item = (m, info1)" by (cases item) auto
  obtain h1 r1 d1 where one: "register_one lib (m, info1) (h, reg, nd) = (h1, r1, d1)"
    by (cases "register_one lib (m, info1) (h, reg, nd)") auto
  from Cons.prems(1) have rest: "register_loop lib loaded (h1, r1, d1) = (h', reg', nd')"
    by (simp add: item one)
  have later: "\<forall>(n, info) \<in> set loaded. proxy_tool_data (info_proxy info) = info_tool_data info"
    using Cons.prems(3) by simp
  show ?case
  proof (cases "(n, info) \<in> set loaded")
    case True
    then show ?thesis by (rule Cons.IH [OF rest _ later])
  next
    case False
    with Cons.prems(2) have eq: "info1 = info" by (simp add: item)
    have w: "cells h1 (info_tool_data info) ''fn'' = Some (PBoundCall (info_proxy info))"
      by (simp add: register_one_cells [OF one] eq)
    have pd: "proxy_tool_data (info_proxy info) = info_tool_data info"
      using Cons.prems(3) eq by (simp add: item)
    show ?thesis by (rule register_loop_fn_kept [OF rest w pd later])
  qed
qed

lemma create_proxy_data:
  "create_proxy h a dir exe = Some p \<Longrightarrow> proxy_tool_data p = a"
  by (auto simp: create_proxy_def split: option.splits pyval.splits if_splits)

lemma make_proxies_inv:
  assumes "make_proxies python_exe listing h xs acc = Some res"
      and "\<forall>(n, info) \<in> set acc. info_tool_data info \<in> A \<and>
             proxy_tool_data (info_proxy info) = info_tool_data info"
      and "snd ` set xs \<subseteq> A"
  shows "\<forall>(n, info) \<in> set res. info_tool_data info \<in> A \<and>
             proxy_tool_data (info_proxy info) = info_tool_data info"
  using assms
proof (induction xs arbitrary: acc)
  case Nil
  then show ?case by simp
next
  case (Cons x xs)
  obtain tn a where x: "x = (tn, a)" by (cases x) auto
  from Cons.prems(1) obtain name where tn: "tn = PStr name"
    by (cases tn) (auto simp: x)
  have a: "a \<in> A" and xsA: "snd ` set xs \<subseteq> A" using Cons.prems(3) by (auto simp: x)
  let ?dir = "split_first CHR ''-'' name"
  consider (skip) "make_proxies python_exe listing h xs acc = Some res"
    | (add) exe proxy where "python_exe ?dir = Some exe" "create_proxy h a ?dir exe = Some proxy"
        "make_proxies python_exe listing h xs
           (AList.update name \<lparr>info_tool_data = a, info_proxy = proxy,
              info_tool_dir = ?dir, info_python_exe = exe\<rparr> acc) = Some res"
    using Cons.prems(1) unfolding x tn
    by (auto simp: Let_def split: if_splits option.splits)
  then show ?case
  proof cases
    case skip
    then show ?thesis by (rule Cons.IH [OF _ Cons.prems(2) xsA])
  next
    case add
    let ?info = "\<lparr>info_tool_data = a, info_proxy = proxy, info_tool_dir = ?dir, info_python_exe = exe\<rparr>"
    have "\<forall>(n, info) \<in> set (AList.update name ?info acc). info_tool_data info \<in> A \<and>
             proxy_tool_data (info_proxy info) = info_tool_data info"
      using set_update_subset [of name ?info acc] Cons.prems(2) a create_proxy_data [OF add(2)]
      by auto
    then show ?thesis by (rule Cons.IH [OF add(3) _ xsA])
  qed
qed

text \<open>
  Claim C9. For every tool that \<open>register_tools_to_mcp\<close> receives from a scan, the descriptor
  dictionary it works on is the very object listed in the cache entry of a plugin; the
  registration writes into it the key \<open>fn\<close>, bound to the call method of a proxy made for that
  descriptor, a value that is not JSON-serializable, and leaves its other keys as they
  were. The cache is not touched by the registration, so a later cache hit for that plugin
  reads the same objects, now carrying \<open>fn\<close>.
\<close>

theorem registration_writes_cached_descriptor:
  assumes "distinct (map entry_name (get_tool_directories listing))"
      and "scan_and_load_tools env python_exe now listing request (h0, cache0) = Some ((h1, cache1), loaded)"
      and "register_tools_to_mcp lib eq dn now' (h1, reg, cm) loaded request' = ((h2, reg2, cm2), chg)"
      and "(tool_name, info) \<in> set loaded"
  shows "\<exists>plugin e p.
           map_of cache1 plugin = Some e \<and> info_tool_data info \<in> set (tools e) \<and>
           cells h2 (info_tool_data info) ''fn'' = Some (PBoundCall p) \<and>
           proxy_tool_data p = info_tool_data info \<and>
           \<not> json_serializable (PBoundCall p) \<and>
           (\<forall>k. k \<noteq> ''fn'' \<longrightarrow> cells h2 (info_tool_data info) k = cells h1 (info_tool_data info) k) \<and>
           (\<forall>d acc env2 now2. entry_name d = plugin \<and> is_tool_cache_valid cache1 d \<longrightarrow>
              load_dir env2 now2 None (h2, cache1, acc) d =
                (case add_tools h2 (tools e) (all_tools acc) of
                   None \<Rightarrow> None
                 | Some all' \<Rightarrow>
                     Some (h2, cache1, acc\<lparr>all_tools := all', cache_hits := cache_hits acc + 1\<rparr>)))"
proof -
  from assms(2) obtain res where
      load: "load_all_tools env now listing
               (case request of None \<Rightarrow> None | Some r \<Rightarrow> Some (split_first CHR ''-'' r))
               (h0, cache0) = Some (h1, cache1, res)"
      and mk: "make_proxies python_exe listing h1 (all_tools res) [] = Some loaded"
    by (auto simp: scan_and_load_tools_def split: option.splits)
  have "\<forall>(n, info) \<in> set loaded. info_tool_data info \<in> snd ` set (all_tools res) \<and>
           proxy_tool_data (info_proxy info) = info_tool_data info"
    by (rule make_proxies_inv [OF mk]) simp_all
  then have proxies: "\<forall>(n, info) \<in> set loaded. proxy_tool_data (info_proxy info) = info_tool_data info"
    and addr: "info_tool_data info \<in> snd ` set (all_tools res)"
    using assms(4) by auto
  from load_all_tools_cached [OF load assms(1) addr]
  obtain plugin e where e: "map_of cache1 plugin = Some e" "info_tool_data info \<in> set (tools e)"
    by blast
  obtain r1 nd where loop: "register_loop lib loaded (h1, reg, []) = (h2, r1, nd)"
    using assms(3)
    by (auto simp: register_tools_to_mcp_def Let_def split: prod.splits)
  from register_loop_fn_written [OF loop assms(4) proxies]
  obtain p where p: "cells h2 (info_tool_data info) ''fn'' = Some (PBoundCall p)"
      "proxy_tool_data p = info_tool_data info"
    by blast
  have keep: "\<forall>k. k \<noteq> ''fn'' \<longrightarrow> cells h2 (info_tool_data info) k = cells h1 (info_tool_data info) k"
    using register_loop_other_keys [OF loop] by blast
  have hit: "\<forall>d acc env2 now2. entry_name d = plugin \<and> is_tool_cache_valid cache1 d \<longrightarrow>
              load_dir env2 now2 None (h2, cache1, acc) d =
                (case add_tools h2 (tools e) (all_tools acc) of
                   None \<Rightarrow> None
                 | Some all' \<Rightarrow>
                     Some (h2, cache1, acc\<lparr>all_tools := all', cache_hits := cache_hits acc + 1\<rparr>))"
    using e(1) by (simp add: load_dir_def)
  have ns: "\<not> json_serializable (PBoundCall p)" by simp
  from e p ns keep hit show ?thesis by blast
qed

lemma dirs_ex: "get_tool_directories [calc_dir] = [calc_dir]"
  by (simp add: get_tool_directories_def calc_dir_def startswith_def)

lemma invalid_ex: "\<not> is_tool_cache_valid [] calc_dir"
  by (simp add: is_tool_cache_valid_def)

lemma alloc_ex: "alloc_all empty_heap [data_mul] = (heap_ex, [0])"
  by (simp add: empty_heap_def heap_ex_def)

lemma add_ex: "add_tools heap_ex [0] [] = Some [(PStr ''calc-mul'', 0)]"
  by (simp add: heap_ex_def data_mul_def hashable_def)

lemma cache_upd_ex: "update_tool_cache 9 [] calc_dir [0] = cache1_ex"
  by (simp add: update_tool_cache_def cache1_ex_def calc_dir_def get_tool_file_info_def)

lemma load_dir_ex:
  "load_dir env_ex 9 None (empty_heap, [], \<lparr>all_tools = [], errors = [], cache_hits = 0, cache_misses = 0\<rparr>)
     calc_dir =
   Some (heap_ex, cache1_ex,
         \<lparr>all_tools = [(PStr ''calc-mul'', 0)], errors = [], cache_hits = 0, cache_misses = 1\<rparr>)"
  unfolding load_dir_def
  by (simp add: invalid_ex env_ex_def alloc_ex add_ex cache_upd_ex del: alloc_all.simps add_tools.simps)

lemma load_ex:
  "load_all_tools env_ex 9 [calc_dir] None (empty_heap, []) =
   Some (heap_ex, cache1_ex,
         \<lparr>all_tools = [(PStr ''calc-mul'', 0)], errors = [], cache_hits = 0, cache_misses = 1\<rparr>)"
  unfolding load_all_tools_def by (simp add: dirs_ex load_dir_ex del: alloc_all.simps add_tools.simps)

lemma split_ex: "split_first CHR ''-'' ''calc-mul'' = ''calc''"
  by (simp add: split_first_def)

lemma proxy_ex2: "create_proxy heap_ex 0 ''calc'' ''calc/venv/bin/python'' = Some proxy_mul"
  by (simp add: create_proxy_def heap_ex_def data_mul_def proxy_mul_def hashable_def)

lemma make_ex:
  "make_proxies python_ex [calc_dir] heap_ex [(PStr ''calc-mul'', 0)] [] = Some loaded_ex"
  by (simp add: split_ex python_ex_def proxy_ex2 loaded_ex_def calc_dir_def)

lemma scan_ex:
  "scan_and_load_tools env_ex python_ex 9 [calc_dir] None (empty_heap, []) =
     Some ((heap_ex, cache1_ex), loaded_ex)"
  unfolding scan_and_load_tools_def by (simp add: load_ex make_ex del: make_proxies.simps)

theorem registration_writes_cached_descriptor_witness:
  "scan_and_load_tools env_ex python_ex 9 [calc_dir] None (empty_heap, []) =
     Some ((heap_ex, cache1_ex), loaded_ex) \<and>
   (\<exists>e p. map_of cache1_ex ''calc'' = Some e \<and> 0 \<in> set (tools e) \<and>
      cells (fst (fst (after_reconcile scalar_eq None))) 0 ''fn'' = Some (PBoundCall p) \<and>
      cells (fst (fst (after_reconcile scalar_eq None))) 0 ''name'' = Some (PStr ''calc-mul''))"
proof -
  obtain h2 r2 cm2 chg where reg: "after_reconcile scalar_eq None = ((h2, r2, cm2), chg)"
    by (cases "after_reconcile scalar_eq None") auto
  have reg': "register_tools_to_mcp lib_ex scalar_eq ''tools'' ''t1'' (heap_ex, registry_ex, init_change_manager)
      loaded_ex None = ((h2, r2, cm2), chg)"
    using reg by (simp only: after_reconcile_def)
  have d: "distinct (map entry_name (get_tool_directories [calc_dir]))"
    by (simp add: get_tool_directories_def)
  have m: "(''calc-mul'', snd (hd loaded_ex)) \<in> set loaded_ex" by (simp add: loaded_ex_def)
  have a0: "info_tool_data (snd (hd loaded_ex)) = 0" by (simp add: loaded_ex_def)
  note inst = registration_writes_cached_descriptor [OF d scan_ex reg' m]
  from inst obtain plugin e p where
      e1: "map_of cache1_ex plugin = Some e"
      and e2: "info_tool_data (snd (hd loaded_ex)) \<in> set (tools e)"
      and p: "cells h2 (info_tool_data (snd (hd loaded_ex))) ''fn'' = Some (PBoundCall p)"
      and keep: "\<forall>k. k \<noteq> ''fn'' \<longrightarrow>
          cells h2 (info_tool_data (snd (hd loaded_ex))) k =
          cells heap_ex (info_tool_data (snd (hd loaded_ex))) k"
    by (elim exE conjE) (rule that, assumption+)
  from e1 have pl: "plugin = ''calc''" by (simp add: cache1_ex_def split: if_splits)
  from keep have "cells h2 0 ''name'' = cells heap_ex 0 ''name''" unfolding a0 by simp
  then have nm: "cells h2 0 ''name'' = Some (PStr ''calc-mul'')"
    by (simp add: heap_ex_def data_mul_def)
  have h2: "fst (fst (after_reconcile scalar_eq None)) = h2" by (simp add: reg)
  have "\<exists>e p. map_of cache1_ex ''calc'' = Some e \<and> 0 \<in> set (tools e) \<and>
      cells h2 0 ''fn'' = Some (PBoundCall p) \<and> cells h2 0 ''name'' = Some (PStr ''calc-mul'')"
    using e1 e2 p nm unfolding pl a0 by blast
  then show ?thesis unfolding h2 using scan_ex by (intro conjI)
qed

end
